theory Spec2Isabelle
  imports Main "HOL-Library.List_Lexorder" "HOL-Library.Char_ord" "HOL-Library.AList"
begin

section \<open>Data model\<close>

text \<open>
  The interfaces of \<^verbatim>\<open>realtime-messaging.service.ts\<close> and the tables of
  \<^verbatim>\<open>supabase-messages-1to1.sql\<close>. User and message identifiers are the
  strings the code passes around; a timestamp is the instant it denotes, in
  milliseconds (what \<^verbatim>\<open>new Date(s).getTime()\<close> reads from it), so the order of
  the \<^verbatim>\<open>timestamptz\<close> column is the order of the numbers.
\<close>

type_synonym timestamp = nat

datatype message_type = Text | Image | File | System

datatype message_status = Sent | Delivered | Read

text \<open>
  A row of \<^verbatim>\<open>public.messages\<close>. The columns \<^verbatim>\<open>message_type\<close>,
  \<^verbatim>\<open>status\<close> and \<^verbatim>\<open>updated_at\<close> are filled by the table's defaults on every
  insert and written afterwards only with values of their check constraints, so a stored
  row carries them and the fallbacks \<^verbatim>\<open>row.status || 'sent'\<close>,
  \<^verbatim>\<open>row.message_type || 'text'\<close>, \<^verbatim>\<open>row.updated_at || row.created_at\<close> return
  the stored value; \<^verbatim>\<open>reply_to\<close> and \<^verbatim>\<open>read_at\<close> are nullable.
\<close>

record message_row =
  m_id :: string
  sender_id :: string
  receiver_id :: string
  content :: string
  created_at :: timestamp
  message_type :: message_type
  status :: message_status
  reply_to :: "string option"
  updated_at :: timestamp
  read_at :: "timestamp option"

text \<open>The embedded \<^verbatim>\<open>{ id, name, profile_picture? }\<close> of a hydrated message.\<close>

record user_ref =
  ur_id :: string
  ur_name :: string
  ur_profile_picture :: "string option"

text \<open>\<^verbatim>\<open>interface Message\<close>: a row with the optional sender and receiver.\<close>

record message = message_row +
  sender :: "user_ref option"
  receiver :: "user_ref option"

record profile_row =
  p_user_id :: string
  p_name :: string
  p_profile_picture :: "string option"

record status_row =
  s_user_id :: string
  s_is_online :: bool
  s_last_seen :: "timestamp option"

record typing_row =
  t_user_id :: string
  t_target_user_id :: string
  t_is_typing :: bool

record last_message_info =
  lm_content :: string
  lm_created_at :: timestamp
  lm_sender_id :: string

text \<open>\<^verbatim>\<open>interface ConversationPreview\<close>.\<close>

record conversation_preview =
  user_id :: string
  name :: string
  profile_picture :: "string option"
  last_message :: "last_message_info option"
  unread_count :: nat
  is_online :: bool
  last_seen :: "timestamp option"

section \<open>The store, the client and failures\<close>

datatype table = Messages | Profiles | User_status | Typing_indicators

text \<open>
  A request to the store answers \<^verbatim>\<open>{ data, error }\<close> or rejects. Which of the
  three happens is not decided by this code: \<open>fault\<close> gives, for each table, what
  the requests on it meet.
\<close>

datatype fault = NoFault | ErrorResult | Throws

datatype exn = RequestRejected | SendRejected | ReferenceError

datatype 'a response = Response (data: "'a option") (error: "string option")

text \<open>
  What a broadcast handler registered on a channel closes over: the two identifiers and
  the callback (callbacks are named by numbers).
\<close>

datatype handler = PairHandler string string nat

datatype timer_action = UpdateMessageStatus string message_status | TypingOff string string

text \<open>
  The state every operation runs in: the four tables, the clock, the identifier
  generators (\<^verbatim>\<open>gen_random_uuid()\<close> of the store, \<^verbatim>\<open>crypto.randomUUID()\<close> of the
  client: the \<open>n\<close>-th call returns the \<open>n\<close>-th value of a sequence), and the
  service object: its \<^verbatim>\<open>channels\<close> and \<^verbatim>\<open>typingTimeouts\<close> maps (a JavaScript
  \<^verbatim>\<open>Map\<close> keeps insertion order: an association list), the pending timers, what
  was published on broadcast channels, the console, and the binding of the identifier
  \<^verbatim>\<open>is_typing\<close> in the global scope (\<open>None\<close>: not declared). Of the row-level
  security of \<^verbatim>\<open>public.messages\<close>, the select and insert policies admit what the
  signed-in user reads of their own conversations and sends in their own name, which
  is what the page asks for, and an insert they refuse is an error result, one of the
  faults; the commands that have a policy are recorded with the update request below.
\<close>

record world =
  messages :: "message_row list"
  profiles :: "profile_row list"
  user_status :: "status_row list"
  typing_indicators :: "typing_row list"
  fault :: "table \<Rightarrow> fault"
  clock :: timestamp
  db_uuids :: "nat \<Rightarrow> string"
  db_uuid_count :: nat
  crypto_uuids :: "nat \<Rightarrow> string"
  crypto_uuid_count :: nat
  channels :: "(string \<times> handler option) list"
  typingTimeouts :: "(string \<times> nat) list"
  timers :: "(nat \<times> timestamp \<times> timer_action) list"
  timer_count :: nat
  send_fault :: bool
  published :: "(string \<times> message) list"
  console :: "string list"
  global_is_typing :: "bool option"

text \<open>
  An operation takes the state and returns a value or a thrown exception, with the
  state it leaves. A \<^verbatim>\<open>try { ... } catch\<close> keeps the effects made before the throw.
\<close>

type_synonym 'a io = "world \<Rightarrow> (exn + 'a) \<times> world"

definition return_io :: "'a \<Rightarrow> 'a io" where
  "return_io v w = (Inr v, w)"

definition throw_io :: "exn \<Rightarrow> 'a io" where
  "throw_io e w = (Inl e, w)"

definition bind_io :: "'a io \<Rightarrow> ('a \<Rightarrow> 'b io) \<Rightarrow> 'b io" where
  "bind_io m f w = (case m w of (Inl e, w') \<Rightarrow> (Inl e, w') | (Inr v, w') \<Rightarrow> f v w')"

definition try_catch :: "'a io \<Rightarrow> (exn \<Rightarrow> 'a io) \<Rightarrow> 'a io" where
  "try_catch m h w = (case m w of (Inl e, w') \<Rightarrow> h e w' | (Inr v, w') \<Rightarrow> (Inr v, w'))"

definition console_error :: "string \<Rightarrow> unit io" where
  "console_error s w = (Inr (), w\<lparr>console := console w @ [s]\<rparr>)"

text \<open>A read request on table \<open>t\<close> whose query selects \<open>q\<close> of the state.\<close>

definition select_from :: "table \<Rightarrow> (world \<Rightarrow> 'a) \<Rightarrow> 'a response io" where
  "select_from t q w =
     (case fault w t of
        Throws \<Rightarrow> (Inl RequestRejected, w)
      | ErrorResult \<Rightarrow> (Inr (Response None (Some ''error'')), w)
      | NoFault \<Rightarrow> (Inr (Response (Some (q w)) None), w))"

text \<open>\<^verbatim>\<open>x || []\<close> on a nullable array.\<close>

definition or_empty :: "'a list option \<Rightarrow> 'a list" where
  "or_empty d = (case d of None \<Rightarrow> [] | Some xs \<Rightarrow> xs)"

text \<open>\<^verbatim>\<open>.single()\<close>: the row when the query selects exactly one, otherwise no data.\<close>

definition single :: "'a list \<Rightarrow> 'a option" where
  "single rows = (case rows of [r] \<Rightarrow> Some r | _ \<Rightarrow> None)"

section \<open>JavaScript arrays: \<open>Array.prototype.sort\<close>\<close>

text \<open>
  \<open>Array.prototype.sort\<close> is stable (ECMAScript 2019) and orders by the sign of the
  comparator. It is modelled as a stable insertion sort: an element is placed in front
  of the first element it does not compare greater than.
\<close>

fun insort_by :: "('a \<Rightarrow> 'a \<Rightarrow> int) \<Rightarrow> 'a \<Rightarrow> 'a list \<Rightarrow> 'a list" where
  "insort_by cmp x [] = [x]"
| "insort_by cmp x (y # ys) =
     (if cmp x y \<le> 0 then x # y # ys else y # insort_by cmp x ys)"

definition sort_by :: "('a \<Rightarrow> 'a \<Rightarrow> int) \<Rightarrow> 'a list \<Rightarrow> 'a list" where
  "sort_by cmp xs = foldr (insort_by cmp) xs []"

text \<open>
  The default comparator of \<open>sort()\<close> on strings: code-unit order (the lexicographic
  order of \<open>char list\<close>).
\<close>

definition default_compare :: "string \<Rightarrow> string \<Rightarrow> int" where
  "default_compare a b = (if a < b then -1 else if b < a then 1 else 0)"

section \<open>Pair rooms\<close>

text \<open>
  \<^verbatim>\<open>const [a, b] = [userIdA, userIdB].sort(); return `dm:${a}:${b}`;\<close>
\<close>

definition buildPairRoom :: "string \<Rightarrow> string \<Rightarrow> string" where
  "buildPairRoom userIdA userIdB =
     (let s = sort_by default_compare [userIdA, userIdB]
      in ''dm:'' @ (s ! 0) @ '':'' @ (s ! 1))"

section \<open>Reading the conversation of a pair\<close>

definition between :: "string \<Rightarrow> string \<Rightarrow> message_row \<Rightarrow> bool" where
  "between u1 u2 m \<longleftrightarrow>
     (sender_id m = u1 \<and> receiver_id m = u2) \<or> (sender_id m = u2 \<and> receiver_id m = u1)"

text \<open>
  \<^verbatim>\<open>.range(from, to)\<close> asks for offset \<open>from\<close> and limit \<open>to - from + 1\<close>.
\<close>

definition range_rows :: "int \<Rightarrow> int \<Rightarrow> 'a list \<Rightarrow> 'a list" where
  "range_rows from to rows = take (nat (to - from + 1)) (drop (nat from) rows)"

text \<open>
  The query of \<^verbatim>\<open>getMessages\<close>: the rows of the pair in either direction, ordered by
  \<^verbatim>\<open>created_at\<close> ascending, then the range. The store leaves the order of rows with
  equal \<^verbatim>\<open>created_at\<close> open; the model keeps them in table order.
\<close>

definition select_conversation :: "string \<Rightarrow> string \<Rightarrow> nat \<Rightarrow> nat \<Rightarrow> world \<Rightarrow> message_row list" where
  "select_conversation userId1 userId2 limit offset w =
     range_rows (int offset) (int offset + int limit - 1)
       (sort_key created_at (filter (between userId1 userId2) (messages w)))"

definition select_profiles_in :: "string list \<Rightarrow> world \<Rightarrow> profile_row list" where
  "select_profiles_in ids w = filter (\<lambda>p. p_user_id p \<in> set ids) (profiles w)"

text \<open>\<^verbatim>\<open>Array.from(new Set(xs))\<close>: the first occurrence of each element, in order.\<close>

definition array_from_set :: "'a list \<Rightarrow> 'a list" where
  "array_from_set xs = rev (remdups (rev xs))"

text \<open>\<^verbatim>\<open>s || undefined\<close> on an optional string: the empty string is falsy.\<close>

definition or_undefined :: "string option \<Rightarrow> string option" where
  "or_undefined x = (case x of None \<Rightarrow> None | Some s \<Rightarrow> if s = [] then None else Some s)"

text \<open>A \<^verbatim>\<open>Map\<close> filled by \<^verbatim>\<open>forEach(p => map.set(p.user_id, ...))\<close>: a later row wins.\<close>

definition profMap_of :: "profile_row list \<Rightarrow> (string \<rightharpoonup> profile_row)" where
  "profMap_of ps = fold (\<lambda>p m. m(p_user_id p \<mapsto> p)) ps Map.empty"

definition hydrate :: "(string \<rightharpoonup> profile_row) \<Rightarrow> message_row \<Rightarrow> message" where
  "hydrate profMap row =
     \<lparr>m_id = m_id row, sender_id = sender_id row, receiver_id = receiver_id row,
      content = content row, created_at = created_at row,
      message_type = message_type row, status = status row,
      reply_to = or_undefined (reply_to row), updated_at = updated_at row,
      read_at = read_at row,
      sender = (case profMap (sender_id row) of
                  None \<Rightarrow> None
                | Some p \<Rightarrow> Some \<lparr>ur_id = sender_id row, ur_name = p_name p,
                                ur_profile_picture = or_undefined (p_profile_picture p)\<rparr>),
      receiver = (case profMap (receiver_id row) of
                  None \<Rightarrow> None
                | Some p \<Rightarrow> Some \<lparr>ur_id = receiver_id row, ur_name = p_name p,
                                ur_profile_picture = or_undefined (p_profile_picture p)\<rparr>)\<rparr>"

text \<open>
  \<^verbatim>\<open>getMessages(userId1, userId2, limit = 50, offset = 0)\<close>. The two numbers are
  counts of rows: naturals.
\<close>

definition getMessages :: "string \<Rightarrow> string \<Rightarrow> nat \<Rightarrow> nat \<Rightarrow> message list io" where
  "getMessages userId1 userId2 limit offset =
     try_catch
       (bind_io (select_from Messages (select_conversation userId1 userId2 limit offset)) (\<lambda>res.
          if error res \<noteq> None \<or> data res = None then
            bind_io (if error res \<noteq> None then console_error ''Error fetching messages:''
                     else return_io ()) (\<lambda>_.
            return_io [])
          else
            let rows = or_empty (data res);
                userIds = array_from_set (concat (map (\<lambda>m. [sender_id m, receiver_id m]) rows))
            in bind_io (select_from Profiles (select_profiles_in userIds)) (\<lambda>pres.
                 return_io (map (hydrate (profMap_of (or_empty (data pres)))) rows))))
       (\<lambda>e. bind_io (console_error ''Error fetching messages:'') (\<lambda>_. return_io []))"

section \<open>Conversation previews\<close>

definition touches :: "string \<Rightarrow> message_row \<Rightarrow> bool" where
  "touches userId m \<longleftrightarrow> sender_id m = userId \<or> receiver_id m = userId"

text \<open>
  The query of \<^verbatim>\<open>getConversations\<close>: every row the user sent or received, newest
  first (rows with equal \<^verbatim>\<open>created_at\<close> in reverse table order).
\<close>

definition select_touching :: "string \<Rightarrow> world \<Rightarrow> message_row list" where
  "select_touching userId w = rev (sort_key created_at (filter (touches userId) (messages w)))"

definition otherUserId_of :: "string \<Rightarrow> message_row \<Rightarrow> string" where
  "otherUserId_of userId m = (if sender_id m = userId then receiver_id m else sender_id m)"

text \<open>
  One turn of \<^verbatim>\<open>data.forEach\<close> on \<^verbatim>\<open>conversationMap\<close>: the first row of a peer
  makes its preview, a later one only counts.
\<close>

definition conversation_step ::
  "string \<Rightarrow> message_row \<Rightarrow> (string \<times> conversation_preview) list
     \<Rightarrow> (string \<times> conversation_preview) list" where
  "conversation_step userId m conversationMap =
     (let otherUserId = otherUserId_of userId m in
      case map_of conversationMap otherUserId of
        None \<Rightarrow>
          conversationMap @
            [(otherUserId,
              \<lparr>user_id = otherUserId, name = ''Unknown User'', profile_picture = None,
               last_message = Some \<lparr>lm_content = content m, lm_created_at = created_at m,
                                     lm_sender_id = sender_id m\<rparr>,
               unread_count = (if sender_id m \<noteq> userId then 1 else 0),
               is_online = False, last_seen = None\<rparr>)]
      | Some c \<Rightarrow>
          if sender_id m \<noteq> userId
          then AList.update otherUserId (c\<lparr>unread_count := unread_count c + 1\<rparr>) conversationMap
          else conversationMap)"

definition select_status_in :: "string list \<Rightarrow> world \<Rightarrow> status_row list" where
  "select_status_in ids w = filter (\<lambda>s. s_user_id s \<in> set ids) (user_status w)"

definition sMap_of :: "status_row list \<Rightarrow> (string \<rightharpoonup> status_row)" where
  "sMap_of ss = fold (\<lambda>s m. m(s_user_id s \<mapsto> s)) ss Map.empty"

text \<open>The body of the last \<^verbatim>\<open>conversationMap.forEach((c, uid) => ...)\<close>.\<close>

definition overlay ::
  "(string \<rightharpoonup> profile_row) \<Rightarrow> (string \<rightharpoonup> status_row)
     \<Rightarrow> string \<times> conversation_preview \<Rightarrow> string \<times> conversation_preview" where
  "overlay pMap sMap entry =
     (let uid = fst entry; c = snd entry;
          c1 = (case pMap uid of
                  None \<Rightarrow> c
                | Some p \<Rightarrow> c\<lparr>name := p_name p,
                               profile_picture := or_undefined (p_profile_picture p)\<rparr>);
          c2 = (case sMap uid of
                  None \<Rightarrow> c1
                | Some s \<Rightarrow> c1\<lparr>is_online := s_is_online s, last_seen := s_last_seen s\<rparr>)
      in (uid, c2))"

definition getConversations :: "string \<Rightarrow> conversation_preview list io" where
  "getConversations userId =
     try_catch
       (bind_io (select_from Messages (select_touching userId)) (\<lambda>res.
          if error res \<noteq> None \<or> data res = None then
            bind_io (if error res \<noteq> None then console_error ''Error fetching conversations:''
                     else return_io ()) (\<lambda>_.
            return_io [])
          else
            let conversationMap = fold (conversation_step userId) (or_empty (data res)) [];
                userIds = map fst conversationMap
            in if length userIds > 0 then
                 bind_io (select_from Profiles (select_profiles_in userIds)) (\<lambda>pres.
                 bind_io (select_from User_status (select_status_in userIds)) (\<lambda>sres.
                   return_io
                     (map snd
                        (map (overlay (profMap_of (or_empty (data pres)))
                                (sMap_of (or_empty (data sres))))
                           conversationMap))))
               else return_io (map snd conversationMap)))
       (\<lambda>e. bind_io (console_error ''Error fetching conversations:'') (\<lambda>_. return_io []))"

section \<open>The directory and presence\<close>

text \<open>
  \<^verbatim>\<open>getAllUsersExcept\<close>: the profiles of everybody else, ordered by name in the
  store (its collation is the store's; the model orders the strings as lists of
  characters).
\<close>

definition select_profiles_except :: "string \<Rightarrow> world \<Rightarrow> profile_row list" where
  "select_profiles_except currentUserId w =
     sort_key p_name (filter (\<lambda>p. p_user_id p \<noteq> currentUserId) (profiles w))"

definition getAllUsersExcept :: "string \<Rightarrow> profile_row list io" where
  "getAllUsersExcept currentUserId =
     try_catch
       (bind_io (select_from Profiles (select_profiles_except currentUserId)) (\<lambda>res.
          if error res \<noteq> None \<or> data res = None then return_io []
          else return_io
                 (map (\<lambda>p. \<lparr>p_user_id = p_user_id p, p_name = p_name p,
                             p_profile_picture = p_profile_picture p\<rparr>)
                    (or_empty (data res)))))
       (\<lambda>e. bind_io (console_error ''Error fetching all users:'') (\<lambda>_. return_io []))"

record online_user =
  ou_user_id :: string
  ou_name :: string
  ou_profile_picture :: "string option"
  ou_last_seen :: "timestamp option"

definition select_online :: "world \<Rightarrow> status_row list" where
  "select_online w = filter (\<lambda>s. s_is_online s) (user_status w)"

definition lastSeenMap_of :: "status_row list \<Rightarrow> (string \<rightharpoonup> timestamp option)" where
  "lastSeenMap_of ss = fold (\<lambda>s m. m(s_user_id s \<mapsto> s_last_seen s)) ss Map.empty"

definition getOnlineUsers :: "string \<Rightarrow> online_user list io" where
  "getOnlineUsers currentUserId =
     try_catch
       (bind_io (select_from User_status select_online) (\<lambda>res.
          if error res \<noteq> None \<or> data res = None then return_io []
          else
            let rows = or_empty (data res);
                otherUserIds = filter (\<lambda>i. i \<noteq> currentUserId) (map s_user_id rows)
            in if length otherUserIds = 0 then return_io []
               else
                 bind_io (select_from Profiles (select_profiles_in otherUserIds)) (\<lambda>pres.
                   return_io
                     (map (\<lambda>p. \<lparr>ou_user_id = p_user_id p, ou_name = p_name p,
                                 ou_profile_picture = p_profile_picture p,
                                 ou_last_seen =
                                   (case lastSeenMap_of rows (p_user_id p) of
                                      None \<Rightarrow> None | Some t \<Rightarrow> t)\<rparr>)
                        (or_empty (data pres))))))
       (\<lambda>e. bind_io (console_error ''Error fetching online users:'') (\<lambda>_. return_io []))"

section \<open>Writing message status\<close>

text \<open>
  \<^verbatim>\<open>supabase-messages-1to1.sql\<close> enables row-level security on
  \<^verbatim>\<open>public.messages\<close> and creates two policies on it,
  \<^verbatim>\<open>dm_select_sender_or_receiver\<close> for select and \<^verbatim>\<open>dm_insert_sender_only\<close> for
  insert. It creates none for update, though it does for \<^verbatim>\<open>typing_indicators\<close> and
  \<^verbatim>\<open>user_status\<close>, and the table is dropped and created anew at the top of the file,
  so no earlier policy is left.
\<close>

datatype sql_command = Sql_select | Sql_insert | Sql_update

definition messages_policies :: "sql_command list" where
  "messages_policies = [Sql_select, Sql_insert]"

definition has_policy :: "sql_command \<Rightarrow> bool" where
  "has_policy c \<longleftrightarrow> c \<in> set messages_policies"

text \<open>
  An update request on \<^verbatim>\<open>messages\<close>. With row-level security on, a command that
  has no policy is denied by default, and for an update that is a silent filter: no
  row is visible to it, none is changed and no error is reported. A row is therefore
  rewritten only when an update policy exists (its expression would restrict the rows
  further) and the filter of the request holds of the row; the trigger
  \<^verbatim>\<open>touch_messages_updated_at\<close> then stamps \<^verbatim>\<open>updated_at\<close> on it. Without
  \<^verbatim>\<open>.select()\<close> the answer carries no data.
\<close>

definition update_messages ::
  "(message_row \<Rightarrow> bool) \<Rightarrow> (timestamp \<Rightarrow> message_row \<Rightarrow> message_row) \<Rightarrow> unit response io" where
  "update_messages matches change w =
     (case fault w Messages of
        Throws \<Rightarrow> (Inl RequestRejected, w)
      | ErrorResult \<Rightarrow> (Inr (Response None (Some ''error'')), w)
      | NoFault \<Rightarrow>
          (Inr (Response None None),
           w\<lparr>messages :=
               map (\<lambda>m. if has_policy Sql_update \<and> matches m
                         then (change (clock w) m)\<lparr>updated_at := clock w\<rparr> else m)
                 (messages w)\<rparr>))"

definition markMessagesAsRead :: "string \<Rightarrow> string \<Rightarrow> unit io" where
  "markMessagesAsRead senderId receiverId =
     try_catch
       (bind_io
          (update_messages
             (\<lambda>m. sender_id m = senderId \<and> receiver_id m = receiverId \<and> status m \<noteq> Read)
             (\<lambda>now m. m\<lparr>status := Read, read_at := Some now\<rparr>)) (\<lambda>res.
          if error res \<noteq> None then console_error ''Error marking messages as read:''
          else return_io ()))
       (\<lambda>e. console_error ''Error marking messages as read:'')"

definition updateMessageStatus :: "string \<Rightarrow> message_status \<Rightarrow> unit io" where
  "updateMessageStatus messageId st =
     try_catch
       (bind_io
          (update_messages (\<lambda>m. m_id m = messageId)
             (\<lambda>now m. if st = Read then m\<lparr>status := st, read_at := Some now\<rparr>
                        else m\<lparr>status := st\<rparr>)) (\<lambda>res.
          if error res \<noteq> None then console_error ''Error updating message status:''
          else return_io ()))
       (\<lambda>e. console_error ''Error updating message status:'')"

section \<open>The pair broadcast channel\<close>

text \<open>
  \<^verbatim>\<open>subscribeToPairBroadcast\<close>: an already registered room is returned as it is;
  otherwise the channel is opened with the filtering handler and registered. The
  returned channel is named by its room.
\<close>

definition subscribeToPairBroadcast :: "string \<Rightarrow> string \<Rightarrow> nat \<Rightarrow> string io" where
  "subscribeToPairBroadcast userId otherUserId onPairMessage w =
     (let room = buildPairRoom userId otherUserId in
      if map_of (channels w) room \<noteq> None then (Inr room, w)
      else (Inr room,
            w\<lparr>channels := AList.update room (Some (PairHandler userId otherUserId onPairMessage))
                              (channels w)\<rparr>))"

text \<open>The test the handler makes on a payload before it calls \<^verbatim>\<open>onPairMessage\<close>.\<close>

definition pair_accepts :: "string \<Rightarrow> string \<Rightarrow> message \<Rightarrow> bool" where
  "pair_accepts userId otherUserId msg \<longleftrightarrow>
     (sender_id msg = userId \<and> receiver_id msg = otherUserId) \<or>
     (sender_id msg = otherUserId \<and> receiver_id msg = userId)"

text \<open>
  A \<^verbatim>\<open>dm\<close> payload arriving on a room of this client: the calls of callbacks it
  causes, each with its argument.
\<close>

definition on_broadcast :: "world \<Rightarrow> string \<Rightarrow> message \<Rightarrow> (nat \<times> message) list" where
  "on_broadcast w room msg =
     (case map_of (channels w) room of
        Some (Some (PairHandler userId otherUserId onPairMessage)) \<Rightarrow>
          if pair_accepts userId otherUserId msg then [(onPairMessage, msg)] else []
      | _ \<Rightarrow> [])"

text \<open>
  \<^verbatim>\<open>broadcastPairMessage\<close>: a room not yet registered is opened without a handler
  and registered; \<^verbatim>\<open>channel.send\<close> publishes the message on the room or rejects.
\<close>

definition open_room :: "string \<Rightarrow> world \<Rightarrow> world" where
  "open_room room w =
     (if map_of (channels w) room = None
      then w\<lparr>channels := AList.update room None (channels w)\<rparr> else w)"

definition broadcastPairMessage :: "string \<Rightarrow> string \<Rightarrow> message \<Rightarrow> unit io" where
  "broadcastPairMessage senderId receiverId msg w =
     (let room = buildPairRoom senderId receiverId;
          w1 = open_room room w
      in if send_fault w1 then (Inl SendRejected, w1)
         else (Inr (), w1\<lparr>published := published w1 @ [(room, msg)]\<rparr>))"

section \<open>Timers\<close>

text \<open>\<^verbatim>\<open>setTimeout(f, ms)\<close> returns a handle; \<^verbatim>\<open>clearTimeout\<close> drops the timer.\<close>

definition setTimeout :: "timer_action \<Rightarrow> nat \<Rightarrow> nat io" where
  "setTimeout action ms w =
     (Inr (timer_count w),
      w\<lparr>timers := timers w @ [(timer_count w, clock w + ms, action)],
        timer_count := Suc (timer_count w)\<rparr>)"

definition clearTimeout :: "nat \<Rightarrow> unit io" where
  "clearTimeout h w = (Inr (), w\<lparr>timers := filter (\<lambda>t. fst t \<noteq> h) (timers w)\<rparr>)"

section \<open>Sending a message\<close>

text \<open>
  The insert: \<^verbatim>\<open>id\<close>, \<^verbatim>\<open>created_at\<close>, \<^verbatim>\<open>message_type\<close>, \<^verbatim>\<open>status\<close> and
  \<^verbatim>\<open>updated_at\<close> take the table's defaults; \<^verbatim>\<open>id\<close> is the primary key, so a row
  whose identifier is already stored is refused with an error. \<^verbatim>\<open>.select('*').single()\<close>
  returns the stored row.
\<close>

definition inserted_row :: "string \<Rightarrow> string \<Rightarrow> string \<Rightarrow> world \<Rightarrow> message_row" where
  "inserted_row senderId receiverId text w =
     \<lparr>m_id = db_uuids w (db_uuid_count w), sender_id = senderId, receiver_id = receiverId,
      content = text, created_at = clock w, message_type = Text, status = Sent,
      reply_to = None, updated_at = clock w, read_at = None\<rparr>"

definition insert_message :: "string \<Rightarrow> string \<Rightarrow> string \<Rightarrow> message_row response io" where
  "insert_message senderId receiverId text w =
     (case fault w Messages of
        Throws \<Rightarrow> (Inl RequestRejected, w)
      | ErrorResult \<Rightarrow> (Inr (Response None (Some ''error'')), w)
      | NoFault \<Rightarrow>
          (let row = inserted_row senderId receiverId text w;
               w1 = w\<lparr>db_uuid_count := Suc (db_uuid_count w)\<rparr>
           in if m_id row \<in> set (map m_id (messages w))
              then (Inr (Response None (Some ''duplicate key'')), w1)
              else (Inr (Response (Some row) None), w1\<lparr>messages := messages w @ [row]\<rparr>)))"

definition select_profile_of :: "string \<Rightarrow> world \<Rightarrow> profile_row option" where
  "select_profile_of uid w = single (filter (\<lambda>p. p_user_id p = uid) (profiles w))"

text \<open>
  A \<^verbatim>\<open>.single()\<close> lookup of one profile: its data is the row, or nothing together with
  an error when the filter selects no row or several.
\<close>

definition profile_single :: "string \<Rightarrow> profile_row response io" where
  "profile_single uid w =
     (case fault w Profiles of
        Throws \<Rightarrow> (Inl RequestRejected, w)
      | ErrorResult \<Rightarrow> (Inr (Response None (Some ''error'')), w)
      | NoFault \<Rightarrow>
          (case select_profile_of uid w of
             None \<Rightarrow> (Inr (Response None (Some ''not a single row'')), w)
           | Some p \<Rightarrow> (Inr (Response (Some p) None), w)))"

definition profile_ref :: "profile_row response \<Rightarrow> user_ref option" where
  "profile_ref res =
     (case data res of
        None \<Rightarrow> None
      | Some p \<Rightarrow> Some \<lparr>ur_id = p_user_id p, ur_name = p_name p,
                      ur_profile_picture = or_undefined (p_profile_picture p)\<rparr>)"

definition message_of_row :: "message_row \<Rightarrow> user_ref option \<Rightarrow> user_ref option \<Rightarrow> message" where
  "message_of_row inserted s r =
     \<lparr>m_id = m_id inserted, sender_id = sender_id inserted, receiver_id = receiver_id inserted,
      content = content inserted, created_at = created_at inserted,
      message_type = message_type inserted, status = status inserted,
      reply_to = or_undefined (reply_to inserted), updated_at = updated_at inserted,
      read_at = read_at inserted, sender = s, receiver = r\<rparr>"

text \<open>
  \<^verbatim>\<open>crypto.randomUUID()\<close> and the message the outer \<^verbatim>\<open>catch\<close> of \<^verbatim>\<open>sendMessage\<close>
  makes up.
\<close>

definition randomUUID :: "string io" where
  "randomUUID w =
     (Inr (crypto_uuids w (crypto_uuid_count w)),
      w\<lparr>crypto_uuid_count := Suc (crypto_uuid_count w)\<rparr>)"

definition temp_message :: "string \<Rightarrow> string \<Rightarrow> string \<Rightarrow> string \<Rightarrow> timestamp \<Rightarrow> message" where
  "temp_message uuid senderId receiverId text now =
     \<lparr>m_id = uuid, sender_id = senderId, receiver_id = receiverId, content = text,
      created_at = now, message_type = Text, status = Sent, reply_to = None,
      updated_at = now, read_at = None, sender = None, receiver = None\<rparr>"

text \<open>
  What both branches of the inner \<^verbatim>\<open>try\<close> do with the result: schedule the status
  bump, publish on the pair room, return the message.
\<close>

definition announce :: "string \<Rightarrow> string \<Rightarrow> message \<Rightarrow> message option io" where
  "announce senderId receiverId result =
     bind_io (setTimeout (UpdateMessageStatus (m_id result) Delivered) 800) (\<lambda>_.
     bind_io (broadcastPairMessage senderId receiverId result) (\<lambda>_.
     return_io (Some result)))"

text \<open>
  The inner \<^verbatim>\<open>try { ... } catch { ... }\<close>: the result with the two profiles, or the
  raw inserted row when anything in the \<^verbatim>\<open>try\<close> threw.
\<close>

definition hydrate_and_announce :: "string \<Rightarrow> string \<Rightarrow> message_row \<Rightarrow> message option io" where
  "hydrate_and_announce senderId receiverId inserted =
     try_catch
       (bind_io (profile_single (sender_id inserted)) (\<lambda>senderProfile.
        bind_io (profile_single (receiver_id inserted)) (\<lambda>receiverProfile.
          announce senderId receiverId
            (message_of_row inserted (profile_ref senderProfile) (profile_ref receiverProfile)))))
       (\<lambda>e. announce senderId receiverId (message_of_row inserted None None))"

text \<open>The outer \<^verbatim>\<open>catch\<close>.\<close>

definition broadcast_fabricated :: "string \<Rightarrow> string \<Rightarrow> string \<Rightarrow> message option io" where
  "broadcast_fabricated senderId receiverId text =
     bind_io (console_error ''Error sending message:'') (\<lambda>_.
     bind_io (\<lambda>w. (Inr (clock w), w)) (\<lambda>now.
     bind_io randomUUID (\<lambda>uuid.
     bind_io (try_catch
                (broadcastPairMessage senderId receiverId
                   (temp_message uuid senderId receiverId text now))
                (\<lambda>e. return_io ())) (\<lambda>_.
     return_io None))))"

definition sendMessage :: "string \<Rightarrow> string \<Rightarrow> string \<Rightarrow> message option io" where
  "sendMessage senderId receiverId text =
     try_catch
       (bind_io (insert_message senderId receiverId text) (\<lambda>insertRes.
          if error insertRes \<noteq> None \<or> data insertRes = None then
            bind_io (console_error ''Error sending message:'') (\<lambda>_. return_io None)
          else
            (case data insertRes of
               None \<Rightarrow> return_io None
             | Some inserted \<Rightarrow> hydrate_and_announce senderId receiverId inserted)))
       (\<lambda>e. broadcast_fabricated senderId receiverId text)"

section \<open>Typing indicators\<close>

text \<open>
  The upsert on \<^verbatim>\<open>typing_indicators\<close> names no conflict target, so the store takes
  the primary key \<^verbatim>\<open>id\<close>; the payload has no \<^verbatim>\<open>id\<close>, the default makes a new one,
  and the row is added.
\<close>

definition upsert_typing :: "string \<Rightarrow> string \<Rightarrow> bool \<Rightarrow> unit response io" where
  "upsert_typing userId targetUserId typing w =
     (case fault w Typing_indicators of
        Throws \<Rightarrow> (Inl RequestRejected, w)
      | ErrorResult \<Rightarrow> (Inr (Response None (Some ''error'')), w)
      | NoFault \<Rightarrow>
          (Inr (Response None None),
           w\<lparr>typing_indicators := typing_indicators w @
                 [\<lparr>t_user_id = userId, t_target_user_id = targetUserId,
                   t_is_typing = typing\<rparr>]\<rparr>))"

text \<open>
  The object literal of the upsert is written
  \<^verbatim>\<open>{ user_id: userId, target_user_id: targetUserId, is_typing }\<close>: the shorthand reads
  the identifier \<^verbatim>\<open>is_typing\<close>. No parameter, local or import of the module has that
  name (the parameter is \<^verbatim>\<open>isTyping\<close>), so it is looked up in the global scope, and
  reading an undeclared identifier throws a \<^verbatim>\<open>ReferenceError\<close>.
\<close>

definition read_is_typing :: "bool io" where
  "read_is_typing w =
     (case global_is_typing w of None \<Rightarrow> (Inl ReferenceError, w) | Some b \<Rightarrow> (Inr b, w))"

definition sendTypingIndicator :: "string \<Rightarrow> string \<Rightarrow> bool \<Rightarrow> unit io" where
  "sendTypingIndicator userId targetUserId isTyping =
     try_catch
       (let timeoutKey = userId @ ''-'' @ targetUserId in
        bind_io (\<lambda>w. case map_of (typingTimeouts w) timeoutKey of
                        None \<Rightarrow> (Inr (), w)
                      | Some h \<Rightarrow>
                          bind_io (clearTimeout h) (\<lambda>_ w'.
                            (Inr (), w'\<lparr>typingTimeouts :=
                                          AList.delete timeoutKey (typingTimeouts w')\<rparr>)) w) (\<lambda>_.
        bind_io read_is_typing (\<lambda>is_typing.
        bind_io (upsert_typing userId targetUserId is_typing) (\<lambda>res.
          if error res \<noteq> None then console_error ''Error sending typing indicator:''
          else if isTyping then
            bind_io (setTimeout (TypingOff userId targetUserId) 3000) (\<lambda>timeout w.
              (Inr (), w\<lparr>typingTimeouts :=
                           AList.update timeoutKey timeout (typingTimeouts w)\<rparr>))
          else return_io ()))))
       (\<lambda>e. console_error ''Error sending typing indicator:'')"

text \<open>
  What a timer runs when it fires: the status bump of \<^verbatim>\<open>sendMessage\<close> (inside its
  own \<^verbatim>\<open>try { } catch {}\<close>), or the call that switches the typing indicator off.
\<close>

definition run_timer :: "timer_action \<Rightarrow> unit io" where
  "run_timer a =
     (case a of
        UpdateMessageStatus messageId st \<Rightarrow>
          try_catch (updateMessageStatus messageId st) (\<lambda>e. return_io ())
      | TypingOff userId targetUserId \<Rightarrow> sendTypingIndicator userId targetUserId False)"

text \<open>
  Time passes: the timers that have come due fire in the order of their due times
  (those due together in the order they were set); the callbacks read the clock at
  the end of the interval.
\<close>

definition advance :: "nat \<Rightarrow> world \<Rightarrow> world" where
  "advance ms w =
     (let w1 = w\<lparr>clock := clock w + ms\<rparr>;
          due = sort_key (\<lambda>t. fst (snd t)) (filter (\<lambda>t. fst (snd t) \<le> clock w1) (timers w1));
          w2 = w1\<lparr>timers := filter (\<lambda>t. \<not> fst (snd t) \<le> clock w1) (timers w1)\<rparr>
      in fold (\<lambda>t w'. snd (run_timer (snd (snd t)) w')) due w2)"

section \<open>The conversation list of the messaging view\<close>

text \<open>
  \<^verbatim>\<open>initializeChat\<close> of the messages page, from the three fetches on. The objects
  \<^verbatim>\<open>onlineMap\<close> and \<^verbatim>\<open>byId\<close> are keyed by user identifiers (UUIDs: no key is an
  array index or a property of \<^verbatim>\<open>Object.prototype\<close>), so \<^verbatim>\<open>Object.values\<close> lists
  the entries in insertion order.
\<close>

definition onlineMap_of :: "online_user list \<Rightarrow> (string \<rightharpoonup> online_user)" where
  "onlineMap_of online = fold (\<lambda>u m. m(ou_user_id u \<mapsto> u)) online Map.empty"

definition directory_step ::
  "(string \<rightharpoonup> online_user) \<Rightarrow> profile_row \<Rightarrow> (string \<times> conversation_preview) list
     \<Rightarrow> (string \<times> conversation_preview) list" where
  "directory_step onlineMap u byId =
     (let online_now = (onlineMap (p_user_id u) \<noteq> None);
          seen = (case onlineMap (p_user_id u) of None \<Rightarrow> None | Some ou \<Rightarrow> ou_last_seen ou)
      in case map_of byId (p_user_id u) of
           None \<Rightarrow>
             AList.update (p_user_id u)
               \<lparr>user_id = p_user_id u, name = p_name u, profile_picture = p_profile_picture u,
                last_message = None, unread_count = 0, is_online = online_now,
                last_seen = seen\<rparr> byId
         | Some c \<Rightarrow>
             AList.update (p_user_id u) (c\<lparr>is_online := online_now, last_seen := seen\<rparr>) byId)"

text \<open>
  \<^verbatim>\<open>a.last_message?.created_at ? new Date(a.last_message.created_at).getTime() : 0\<close>
\<close>

definition message_time :: "conversation_preview \<Rightarrow> int" where
  "message_time c = (case last_message c of None \<Rightarrow> 0 | Some lm \<Rightarrow> int (lm_created_at lm))"

text \<open>
  The comparator of the sort. \<^verbatim>\<open>String.prototype.localeCompare\<close> depends on the
  locale of the browser: it is a parameter.
\<close>

definition compare_previews ::
  "(string \<Rightarrow> string \<Rightarrow> int) \<Rightarrow> conversation_preview \<Rightarrow> conversation_preview \<Rightarrow> int" where
  "compare_previews localeCompare a b =
     (if is_online a \<and> \<not> is_online b then -1
      else if \<not> is_online a \<and> is_online b then 1
      else let at = message_time a; bt = message_time b
           in if bt \<noteq> at then bt - at else localeCompare (name a) (name b))"

definition merge_conversations ::
  "(string \<Rightarrow> string \<Rightarrow> int) \<Rightarrow> conversation_preview list \<Rightarrow> profile_row list
     \<Rightarrow> online_user list \<Rightarrow> conversation_preview list" where
  "merge_conversations localeCompare conversationsData allUsers online =
     (let onlineMap = onlineMap_of online;
          byId0 = fold (\<lambda>c byId. AList.update (user_id c) c byId) conversationsData [];
          byId = fold (directory_step onlineMap) allUsers byId0
      in sort_by (compare_previews localeCompare) (map snd byId))"

definition initializeChat :: "(string \<Rightarrow> string \<Rightarrow> int) \<Rightarrow> string \<Rightarrow> conversation_preview list io" where
  "initializeChat localeCompare userId =
     bind_io (getConversations userId) (\<lambda>conversationsData.
     bind_io (getAllUsersExcept userId) (\<lambda>allUsers.
     bind_io (getOnlineUsers userId) (\<lambda>online.
     return_io (merge_conversations localeCompare conversationsData allUsers online))))"

section \<open>Reference notions and example states\<close>

text \<open>A returned message presents a stored row: it carries the row's columns.\<close>

definition presents :: "message \<Rightarrow> message_row \<Rightarrow> bool" where
  "presents m r \<longleftrightarrow>
     m_id m = m_id r \<and> sender_id m = sender_id r \<and> receiver_id m = receiver_id r \<and>
     content m = content r \<and> created_at m = created_at r \<and>
     message_type m = message_type r \<and> status m = status r \<and>
     reply_to m = or_undefined (reply_to r) \<and> updated_at m = updated_at r \<and>
     read_at m = read_at r"

text \<open>
  The history of a pair: the stored messages exchanged between the two users, in
  ascending order of creation time.
\<close>

definition pair_history :: "world \<Rightarrow> string \<Rightarrow> string \<Rightarrow> message_row list" where
  "pair_history w a b = sort_key created_at (filter (between a b) (messages w))"

definition example_row ::
  "string \<Rightarrow> string \<Rightarrow> string \<Rightarrow> string \<Rightarrow> timestamp \<Rightarrow> message_status \<Rightarrow> message_row" where
  "example_row i s r text t st =
     \<lparr>m_id = i, sender_id = s, receiver_id = r, content = text, created_at = t,
      message_type = Text, status = st, reply_to = None, updated_at = t,
      read_at = (if st = Read then Some t else None)\<rparr>"

text \<open>
  A small state: Alice and Bob have exchanged three messages, Alice has written to
  Carol, Dave has a profile and no messages; every request is answered.
\<close>

definition example_world :: world where
  "example_world =
     \<lparr>messages =
        [example_row ''m1'' ''alice'' ''bob'' ''hi'' 10 Read,
         example_row ''m2'' ''bob'' ''alice'' ''there?'' 30 Delivered,
         example_row ''m3'' ''alice'' ''carol'' ''yo'' 15 Sent,
         example_row ''m4'' ''bob'' ''alice'' ''hello'' 20 Sent],
      profiles =
        [\<lparr>p_user_id = ''alice'', p_name = ''Alice'', p_profile_picture = None\<rparr>,
         \<lparr>p_user_id = ''bob'', p_name = ''Bob'', p_profile_picture = Some ''bob.png''\<rparr>,
         \<lparr>p_user_id = ''carol'', p_name = ''Carol'', p_profile_picture = None\<rparr>,
         \<lparr>p_user_id = ''dave'', p_name = ''Dave'', p_profile_picture = None\<rparr>],
      user_status =
        [\<lparr>s_user_id = ''bob'', s_is_online = False, s_last_seen = Some 900\<rparr>,
         \<lparr>s_user_id = ''dave'', s_is_online = True, s_last_seen = Some 950\<rparr>],
      typing_indicators = [],
      fault = (\<lambda>t. NoFault),
      clock = 1000,
      db_uuids = (\<lambda>n. ''new'' @ replicate n (CHR ''+'')),
      db_uuid_count = 0,
      crypto_uuids = (\<lambda>n. ''tmp'' @ replicate n (CHR ''+'')),
      crypto_uuid_count = 0,
      channels = [],
      typingTimeouts = [],
      timers = [],
      timer_count = 0,
      send_fault = False,
      published = [],
      console = [],
      global_is_typing = None\<rparr>"

text \<open>
  Sending and then fetching the conversation: the message \<open>sendMessage\<close> returned
  and the list \<open>getMessages\<close> returns next, when the send succeeded; how often the
  sent message occurs in that list.
\<close>

definition send_then_fetch ::
  "string \<Rightarrow> string \<Rightarrow> string \<Rightarrow> nat \<Rightarrow> nat \<Rightarrow> world \<Rightarrow> (message \<times> message list) option" where
  "send_then_fetch a b text limit offset w =
     (case sendMessage a b text w of
        (Inr (Some m), w') \<Rightarrow>
          (case getMessages a b limit offset w' of
             (Inr ms, w'') \<Rightarrow> Some (m, ms)
           | (Inl e, w'') \<Rightarrow> None)
      | (Inr None, w') \<Rightarrow> None
      | (Inl e, w') \<Rightarrow> None)"

definition occurrences :: "message \<Rightarrow> message list \<Rightarrow> nat" where
  "occurrences m ms = length (filter (\<lambda>x. m_id x = m_id m) ms)"

definition sent_occurrences ::
  "string \<Rightarrow> string \<Rightarrow> string \<Rightarrow> nat \<Rightarrow> nat \<Rightarrow> world \<Rightarrow> nat option" where
  "sent_occurrences a b text limit offset w =
     (case send_then_fetch a b text limit offset w of
        None \<Rightarrow> None | Some (m, ms) \<Rightarrow> Some (occurrences m ms))"

text \<open>Alice and Bob with fifty stored messages; every request is answered.\<close>

definition crowded_world :: world where
  "crowded_world =
     example_world
       \<lparr>messages :=
          map (\<lambda>i. example_row (replicate (Suc i) (CHR ''x'')) ''alice'' ''bob'' ''hi'' i Sent)
            [0..<50]\<rparr>"

text \<open>The example state when every request is rejected, and when every request is
  answered with an error.\<close>

definition rejecting_world :: world where
  "rejecting_world = example_world\<lparr>fault := (\<lambda>t. Throws)\<rparr>"

definition refusing_world :: world where
  "refusing_world = example_world\<lparr>fault := (\<lambda>t. ErrorResult)\<rparr>"

text \<open>
  The number of stored messages between \<open>u\<close> and \<open>p\<close> whose sender is not \<open>u\<close>, and
  the same count over a list of rows by the peer of each row.
\<close>

definition unread_between :: "world \<Rightarrow> string \<Rightarrow> string \<Rightarrow> nat" where
  "unread_between w u p =
     length (filter (\<lambda>m. between u p m \<and> sender_id m \<noteq> u) (messages w))"

definition inbound_from :: "string \<Rightarrow> string \<Rightarrow> message_row list \<Rightarrow> nat" where
  "inbound_from u k ms =
     length (filter (\<lambda>m. otherUserId_of u m = k \<and> sender_id m \<noteq> u) ms)"

text \<open>
  The order of the conversation list in the spec's words: online before offline;
  among equals, the later last message first (a preview without one counts as time
  0); among equals again, the name that the locale's comparison does not put after.
\<close>

definition preview_before ::
  "(string \<Rightarrow> string \<Rightarrow> int) \<Rightarrow> conversation_preview \<Rightarrow> conversation_preview \<Rightarrow> bool" where
  "preview_before localeCompare a b \<longleftrightarrow>
     (is_online a \<and> \<not> is_online b) \<or>
     (is_online a = is_online b \<and>
        (message_time b < message_time a \<or>
         (message_time a = message_time b \<and> localeCompare (name a) (name b) \<le> 0)))"

text \<open>An operation that changes nothing of the state but the console.\<close>

definition only_logs :: "'a io \<Rightarrow> bool" where
  "only_logs m \<longleftrightarrow> (\<forall>w. \<exists>l. snd (m w) = w\<lparr>console := l\<rparr>)"

text \<open>
  What holds of \<^verbatim>\<open>byId\<close> all along the merge: its keys are distinct, every entry is
  filed under its own user identifier, and an entry is either of a peer with a
  fetched preview (\<open>H\<close>) or has no unread message and no last message.
\<close>

definition byId_ok :: "string set \<Rightarrow> (string \<times> conversation_preview) list \<Rightarrow> bool" where
  "byId_ok H byId \<longleftrightarrow>
     distinct (map fst byId) \<and>
     (\<forall>k c. map_of byId k = Some c \<longrightarrow>
        user_id c = k \<and> (k \<in> H \<or> (unread_count c = 0 \<and> last_message c = None)))"

section \<open>Properties\<close>

subsection \<open>Pair rooms\<close>

lemma sort_by_pair:
  "sort_by default_compare [x, y] = (if y < x then [y, x] else [x, y])"
  by (auto simp: sort_by_def default_compare_def)

lemma pair_room_sym: "buildPairRoom a b = buildPairRoom b a"
  by (auto simp: buildPairRoom_def sort_by_pair Let_def)

text \<open>
  C6. The pair-room identifier derived for (A, B) equals the one derived for (B, A).
\<close>

theorem buildPairRoom_commute:
  "buildPairRoom a b = buildPairRoom b a"
proof (cases "b < a")
  case True
  then have "\<not> a < b" by simp
  with True show ?thesis
    by (simp add: buildPairRoom_def sort_by_pair)
next
  case False
  then have "a < b \<or> a = b" by auto
  then show ?thesis
    by (auto simp: buildPairRoom_def sort_by_pair)
qed

subsection \<open>Requests\<close>

lemma select_from_cases:
  "select_from t q w =
     (if fault w t = Throws then (Inl RequestRejected, w)
      else if fault w t = ErrorResult then (Inr (Response None (Some ''error'')), w)
      else (Inr (Response (Some (q w)) None), w))"
  by (cases "fault w t") (simp_all add: select_from_def)

subsection \<open>Fetching a conversation\<close>

lemma presents_hydrate: "presents (hydrate pm r) r"
  by (simp add: presents_def hydrate_def)

lemma created_at_hydrate: "created_at (hydrate pm r) = created_at r"
  by (simp add: hydrate_def)

lemma range_rows_window:
  "range_rows (int offset) (int offset + int limit - 1) rows = take limit (drop offset rows)"
  by (simp add: range_rows_def)

lemma getMessages_ok:
  assumes "fault w Messages = NoFault" "fault w Profiles \<noteq> Throws"
  shows "\<exists>pm. getMessages a b limit offset w =
           (Inr (map (hydrate pm) (take limit (drop offset (pair_history w a b)))), w)"
  using assms
  by (cases "fault w Profiles")
     (auto simp: getMessages_def try_catch_def bind_io_def select_from_cases return_io_def
        or_empty_def select_conversation_def range_rows_window pair_history_def Let_def)

lemma getMessages_empty:
  assumes "filter (between a b) (messages w) = []"
  shows "fst (getMessages a b limit offset w) = Inr []"
  using assms
  by (cases "fault w Profiles"; cases "fault w Messages")
     (auto simp: getMessages_def try_catch_def bind_io_def select_from_cases return_io_def
        or_empty_def console_error_def Let_def select_conversation_def range_rows_window)

lemma sorted_pair_history: "sorted (map created_at (pair_history w a b))"
  by (simp add: pair_history_def)

lemma set_pair_history:
  "set (pair_history w a b) = {m \<in> set (messages w). between a b m}"
  by (auto simp: pair_history_def)

lemma sorted_window:
  "sorted (map f xs) \<Longrightarrow> sorted (map f (take n (drop k xs)))"
proof -
  assume "sorted (map f xs)"
  then have "sorted (take n (drop k (map f xs)))"
    by (intro sorted_wrt_take sorted_wrt_drop)
  then show ?thesis
    by (simp only: take_map drop_map)
qed

lemma example_history:
  "pair_history example_world ''alice'' ''bob'' =
     [example_row ''m1'' ''alice'' ''bob'' ''hi'' 10 Read,
      example_row ''m4'' ''bob'' ''alice'' ''hello'' 20 Sent,
      example_row ''m2'' ''bob'' ''alice'' ''there?'' 30 Delivered]"
  by (simp add: pair_history_def example_world_def between_def example_row_def)

text \<open>
  C3. When its requests are answered, \<open>getMessages a b limit offset\<close> returns the
  messages at the positions \<open>offset, ..., offset + limit - 1\<close> of the history of the
  pair (as far as the history reaches), each presenting its stored row, in ascending
  order of creation time and all of them between \<open>a\<close> and \<open>b\<close>. On a pair with no
  stored message it returns the empty list, whatever the requests meet.
\<close>

theorem getMessages_window:
  "(fault w Messages = NoFault \<and> fault w Profiles \<noteq> Throws \<longrightarrow>
      (\<exists>ms. getMessages a b limit offset w = (Inr ms, w) \<and>
         length ms = min limit (length (pair_history w a b) - offset) \<and>
         (\<forall>i < length ms. presents (ms ! i) (pair_history w a b ! (offset + i))) \<and>
         sorted (map created_at ms) \<and>
         (\<forall>m \<in> set ms. pair_accepts a b m))) \<and>
   (filter (between a b) (messages w) = [] \<longrightarrow>
      fst (getMessages a b limit offset w) = Inr [])"
proof (intro conjI impI)
  assume ok: "fault w Messages = NoFault \<and> fault w Profiles \<noteq> Throws"
  let ?h = "pair_history w a b"
  let ?win = "take limit (drop offset ?h)"
  from ok obtain pm where g: "getMessages a b limit offset w = (Inr (map (hydrate pm) ?win), w)"
    using getMessages_ok by blast
  have len: "length (map (hydrate pm) ?win) = min limit (length ?h - offset)"
    by (simp add: min.commute)
  have at: "\<forall>i < length (map (hydrate pm) ?win).
              presents (map (hydrate pm) ?win ! i) (?h ! (offset + i))"
    by (auto simp: presents_hydrate)
  have srt: "sorted (map created_at (map (hydrate pm) ?win))"
    using sorted_window [OF sorted_pair_history, of limit offset w a b]
    by (simp add: comp_def created_at_hydrate)
  have "set ?win \<subseteq> set ?h"
    by (meson set_take_subset set_drop_subset subset_trans)
  then have betw: "\<forall>m \<in> set (map (hydrate pm) ?win). pair_accepts a b m"
    by (auto simp: set_pair_history pair_accepts_def between_def hydrate_def)
  show "\<exists>ms. getMessages a b limit offset w = (Inr ms, w) \<and>
         length ms = min limit (length ?h - offset) \<and>
         (\<forall>i < length ms. presents (ms ! i) (?h ! (offset + i))) \<and>
         sorted (map created_at ms) \<and> (\<forall>m \<in> set ms. pair_accepts a b m)"
    using g len at srt betw by blast
next
  assume "filter (between a b) (messages w) = []"
  then show "fst (getMessages a b limit offset w) = Inr []"
    by (rule getMessages_empty)
qed

theorem getMessages_window_witness:
  "(fault example_world Messages = NoFault \<and> fault example_world Profiles \<noteq> Throws) \<and>
   (\<exists>ms. getMessages ''alice'' ''bob'' 2 1 example_world = (Inr ms, example_world) \<and>
      length ms = 2 \<and>
      (\<forall>i < length ms. presents (ms ! i) (pair_history example_world ''alice'' ''bob'' ! (1 + i))) \<and>
      sorted (map created_at ms) \<and>
      (\<forall>m \<in> set ms. pair_accepts ''alice'' ''bob'' m)) \<and>
   filter (between ''alice'' ''dave'') (messages example_world) = [] \<and>
   fst (getMessages ''alice'' ''dave'' 50 0 example_world) = Inr []"
proof -
  have h1: "fault example_world Messages = NoFault \<and> fault example_world Profiles \<noteq> Throws"
    by (simp add: example_world_def)
  have h2: "filter (between ''alice'' ''dave'') (messages example_world) = []"
    by (simp add: example_world_def between_def example_row_def)
  have l: "min 2 (length (pair_history example_world ''alice'' ''bob'') - 1) = 2"
    by (simp add: example_history)
  from getMessages_window [of example_world "''alice''" "''bob''" 2 1] h1 l
  have c1: "\<exists>ms. getMessages ''alice'' ''bob'' 2 1 example_world = (Inr ms, example_world) \<and>
      length ms = 2 \<and>
      (\<forall>i < length ms. presents (ms ! i) (pair_history example_world ''alice'' ''bob'' ! (1 + i))) \<and>
      sorted (map created_at ms) \<and>
      (\<forall>m \<in> set ms. pair_accepts ''alice'' ''bob'' m)"
    by simp
  from getMessages_window [of example_world "''alice''" "''dave''" 50 0] h2
  have c2: "fst (getMessages ''alice'' ''dave'' 50 0 example_world) = Inr []"
    by blast
  show ?thesis
    using h1 h2 c1 c2 by blast
qed

subsection \<open>Exceptions and handlers\<close>

lemmas io_defs = try_catch_def bind_io_def return_io_def throw_io_def console_error_def

lemma try_catch_total:
  assumes "\<And>e w1. \<exists>v w'. h e w1 = (Inr v, w')"
  shows "\<exists>v w'. try_catch m h w = (Inr v, w')"
proof (cases "m w")
  case (Pair res w1)
  then show ?thesis
    using assms by (cases res) (auto simp: try_catch_def)
qed

lemma log_and_return_total:
  "\<exists>v w'. bind_io (console_error s) (\<lambda>_. return_io x) w = (Inr v, w')"
  by (simp add: io_defs)

lemma getMessages_total: "\<exists>ms w'. getMessages a b limit offset w = (Inr ms, w')"
  unfolding getMessages_def by (rule try_catch_total) (rule log_and_return_total)

lemma getConversations_total: "\<exists>cs w'. getConversations u w = (Inr cs, w')"
  unfolding getConversations_def by (rule try_catch_total) (rule log_and_return_total)

lemma getOnlineUsers_total: "\<exists>us w'. getOnlineUsers u w = (Inr us, w')"
  unfolding getOnlineUsers_def by (rule try_catch_total) (rule log_and_return_total)

lemma getAllUsersExcept_total: "\<exists>us w'. getAllUsersExcept u w = (Inr us, w')"
  unfolding getAllUsersExcept_def by (rule try_catch_total) (rule log_and_return_total)

lemma markMessagesAsRead_total: "\<exists>w'. markMessagesAsRead s r w = (Inr (), w')"
proof -
  have "\<exists>v w'. markMessagesAsRead s r w = (Inr v, w')"
    unfolding markMessagesAsRead_def by (rule try_catch_total) (simp add: console_error_def)
  then show ?thesis by simp
qed

subsection \<open>The broadcast and the outer handler of sendMessage\<close>

lemma open_room_frame [simp]:
  "messages (open_room room w) = messages w"
  "profiles (open_room room w) = profiles w"
  "fault (open_room room w) = fault w"
  "clock (open_room room w) = clock w"
  "send_fault (open_room room w) = send_fault w"
  "published (open_room room w) = published w"
  "console (open_room room w) = console w"
  by (simp_all add: open_room_def)

lemma broadcast_eq:
  "broadcastPairMessage s r m w =
     (if send_fault w then (Inl SendRejected, open_room (buildPairRoom s r) w)
      else (Inr (), (open_room (buildPairRoom s r) w)
                       \<lparr>published := published w @ [(buildPairRoom s r, m)]\<rparr>))"
  by (simp add: broadcastPairMessage_def Let_def)

lemma broadcast_fabricated_eq:
  "broadcast_fabricated s r t w =
     (Inr None,
      (let w1 = open_room (buildPairRoom s r)
                  (w\<lparr>console := console w @ [''Error sending message:''],
                     crypto_uuid_count := Suc (crypto_uuid_count w)\<rparr>)
       in if send_fault w then w1
          else w1\<lparr>published := published w @
                    [(buildPairRoom s r,
                      temp_message (crypto_uuids w (crypto_uuid_count w)) s r t (clock w))]\<rparr>))"
  by (simp add: broadcast_fabricated_def io_defs randomUUID_def broadcast_eq Let_def)

lemma sendMessage_total: "\<exists>v w'. sendMessage s r t w = (Inr v, w')"
  unfolding sendMessage_def by (rule try_catch_total) (simp add: broadcast_fabricated_eq)

lemma sendMessage_throws:
  assumes "fault w Messages = Throws"
  shows "sendMessage s r t w = broadcast_fabricated s r t w"
  using assms by (simp add: sendMessage_def try_catch_def bind_io_def insert_message_def)

lemma sendMessage_error_result:
  assumes "fault w Messages = ErrorResult"
  shows "sendMessage s r t w =
           (Inr None, w\<lparr>console := console w @ [''Error sending message:'']\<rparr>)"
  using assms by (simp add: sendMessage_def io_defs insert_message_def)

subsection \<open>What each operation returns when its first request fails\<close>

lemma getMessages_throws:
  assumes "fault w Messages = Throws"
  shows "getMessages a b limit offset w =
           (Inr [], w\<lparr>console := console w @ [''Error fetching messages:'']\<rparr>)"
  using assms by (simp add: getMessages_def io_defs select_from_def)

lemma getMessages_error_result:
  assumes "fault w Messages = ErrorResult"
  shows "getMessages a b limit offset w =
           (Inr [], w\<lparr>console := console w @ [''Error fetching messages:'']\<rparr>)"
  using assms by (simp add: getMessages_def io_defs select_from_def)

lemma getConversations_throws:
  assumes "fault w Messages = Throws"
  shows "getConversations u w =
           (Inr [], w\<lparr>console := console w @ [''Error fetching conversations:'']\<rparr>)"
  using assms by (simp add: getConversations_def io_defs select_from_def)

lemma getConversations_error_result:
  assumes "fault w Messages = ErrorResult"
  shows "getConversations u w =
           (Inr [], w\<lparr>console := console w @ [''Error fetching conversations:'']\<rparr>)"
  using assms by (simp add: getConversations_def io_defs select_from_def)

lemma getOnlineUsers_throws:
  assumes "fault w User_status = Throws"
  shows "getOnlineUsers u w =
           (Inr [], w\<lparr>console := console w @ [''Error fetching online users:'']\<rparr>)"
  using assms by (simp add: getOnlineUsers_def io_defs select_from_def)

lemma getOnlineUsers_error_result:
  assumes "fault w User_status = ErrorResult"
  shows "getOnlineUsers u w = (Inr [], w)"
  using assms by (simp add: getOnlineUsers_def io_defs select_from_def)

lemma getAllUsersExcept_throws:
  assumes "fault w Profiles = Throws"
  shows "getAllUsersExcept u w =
           (Inr [], w\<lparr>console := console w @ [''Error fetching all users:'']\<rparr>)"
  using assms by (simp add: getAllUsersExcept_def io_defs select_from_def)

lemma getAllUsersExcept_error_result:
  assumes "fault w Profiles = ErrorResult"
  shows "getAllUsersExcept u w = (Inr [], w)"
  using assms by (simp add: getAllUsersExcept_def io_defs select_from_def)

lemma markMessagesAsRead_fails:
  assumes "fault w Messages \<noteq> NoFault"
  shows "markMessagesAsRead s r w =
           (Inr (), w\<lparr>console := console w @ [''Error marking messages as read:'']\<rparr>)"
  using assms
  by (cases "fault w Messages") (simp_all add: markMessagesAsRead_def io_defs update_messages_def)

lemma sendMessage_fails:
  assumes "fault w Messages \<noteq> NoFault"
  shows "fst (sendMessage s r t w) = Inr None \<and>
         messages (snd (sendMessage s r t w)) = messages w \<and>
         console (snd (sendMessage s r t w)) = console w @ [''Error sending message:'']"
  using assms
  by (cases "fault w Messages")
     (simp_all add: sendMessage_throws sendMessage_error_result broadcast_fabricated_eq Let_def)

text \<open>
  C1, as the code has it. No operation of the accessor lets an exception reach its
  caller, \<open>sendMessage\<close> included. When the first request of an operation is rejected,
  the failure is logged and the operation returns the empty list (the four reads),
  returns normally (\<open>markMessagesAsRead\<close>) or returns null (\<open>sendMessage\<close>). When
  the request is answered with an error the results are the same; \<open>getOnlineUsers\<close>
  and \<open>getAllUsersExcept\<close> then log nothing.
\<close>

theorem failure_policy:
  "(\<exists>ms w'. getMessages a b limit offset w = (Inr ms, w')) \<and>
   (\<exists>cs w'. getConversations u w = (Inr cs, w')) \<and>
   (\<exists>us w'. getOnlineUsers u w = (Inr us, w')) \<and>
   (\<exists>us w'. getAllUsersExcept u w = (Inr us, w')) \<and>
   (\<exists>w'. markMessagesAsRead s r w = (Inr (), w')) \<and>
   (\<exists>v w'. sendMessage s r t w = (Inr v, w')) \<and>
   (fault w Messages \<noteq> NoFault \<longrightarrow>
      getMessages a b limit offset w =
        (Inr [], w\<lparr>console := console w @ [''Error fetching messages:'']\<rparr>) \<and>
      getConversations u w =
        (Inr [], w\<lparr>console := console w @ [''Error fetching conversations:'']\<rparr>) \<and>
      markMessagesAsRead s r w =
        (Inr (), w\<lparr>console := console w @ [''Error marking messages as read:'']\<rparr>) \<and>
      fst (sendMessage s r t w) = Inr None \<and>
      console (snd (sendMessage s r t w)) = console w @ [''Error sending message:'']) \<and>
   (fault w User_status = Throws \<longrightarrow>
      getOnlineUsers u w =
        (Inr [], w\<lparr>console := console w @ [''Error fetching online users:'']\<rparr>)) \<and>
   (fault w User_status = ErrorResult \<longrightarrow> getOnlineUsers u w = (Inr [], w)) \<and>
   (fault w Profiles = Throws \<longrightarrow>
      getAllUsersExcept u w =
        (Inr [], w\<lparr>console := console w @ [''Error fetching all users:'']\<rparr>)) \<and>
   (fault w Profiles = ErrorResult \<longrightarrow> getAllUsersExcept u w = (Inr [], w))"
proof -
  have reads: "fault w Messages \<noteq> NoFault \<longrightarrow>
      getMessages a b limit offset w =
        (Inr [], w\<lparr>console := console w @ [''Error fetching messages:'']\<rparr>) \<and>
      getConversations u w =
        (Inr [], w\<lparr>console := console w @ [''Error fetching conversations:'']\<rparr>) \<and>
      markMessagesAsRead s r w =
        (Inr (), w\<lparr>console := console w @ [''Error marking messages as read:'']\<rparr>) \<and>
      fst (sendMessage s r t w) = Inr None \<and>
      console (snd (sendMessage s r t w)) = console w @ [''Error sending message:'']"
  proof
    assume f: "fault w Messages \<noteq> NoFault"
    have "getMessages a b limit offset w =
        (Inr [], w\<lparr>console := console w @ [''Error fetching messages:'']\<rparr>)"
      using f by (cases "fault w Messages")
        (simp_all add: getMessages_throws getMessages_error_result)
    moreover have "getConversations u w =
        (Inr [], w\<lparr>console := console w @ [''Error fetching conversations:'']\<rparr>)"
      using f by (cases "fault w Messages")
        (simp_all add: getConversations_throws getConversations_error_result)
    moreover note markMessagesAsRead_fails [OF f, of s r] sendMessage_fails [OF f, of s r t]
    ultimately show "getMessages a b limit offset w =
        (Inr [], w\<lparr>console := console w @ [''Error fetching messages:'']\<rparr>) \<and>
      getConversations u w =
        (Inr [], w\<lparr>console := console w @ [''Error fetching conversations:'']\<rparr>) \<and>
      markMessagesAsRead s r w =
        (Inr (), w\<lparr>console := console w @ [''Error marking messages as read:'']\<rparr>) \<and>
      fst (sendMessage s r t w) = Inr None \<and>
      console (snd (sendMessage s r t w)) = console w @ [''Error sending message:'']"
      by blast
  qed
  show ?thesis
    apply (intro conjI)
              apply (rule getMessages_total)
             apply (rule getConversations_total)
            apply (rule getOnlineUsers_total)
           apply (rule getAllUsersExcept_total)
          apply (rule markMessagesAsRead_total)
         apply (rule sendMessage_total)
        apply (rule reads)
       apply (rule impI, erule getOnlineUsers_throws)
      apply (rule impI, erule getOnlineUsers_error_result)
     apply (rule impI, erule getAllUsersExcept_throws)
    apply (rule impI, erule getAllUsersExcept_error_result)
    done
qed

text \<open>
  The claim as stated fails on \<open>sendMessage\<close>: with the insert rejected, the caller
  receives null, not the failure.
\<close>

theorem sendMessage_failure_returns_null:
  "fault rejecting_world Messages = Throws \<and>
   fst (sendMessage ''alice'' ''bob'' ''hello'' rejecting_world) = Inr None"
  by (simp add: sendMessage_throws broadcast_fabricated_eq rejecting_world_def)

theorem failure_policy_witness:
  "fault rejecting_world Messages \<noteq> NoFault \<and>
   fault rejecting_world User_status = Throws \<and>
   fault rejecting_world Profiles = Throws \<and>
   fst (getMessages ''alice'' ''bob'' 50 0 rejecting_world) = Inr [] \<and>
   fst (getConversations ''alice'' rejecting_world) = Inr [] \<and>
   fst (getOnlineUsers ''alice'' rejecting_world) = Inr [] \<and>
   fst (getAllUsersExcept ''alice'' rejecting_world) = Inr [] \<and>
   fst (markMessagesAsRead ''alice'' ''bob'' rejecting_world) = Inr () \<and>
   fst (sendMessage ''alice'' ''bob'' ''hello'' rejecting_world) = Inr None \<and>
   console (snd (sendMessage ''alice'' ''bob'' ''hello'' rejecting_world)) =
     [''Error sending message:''] \<and>
   fault refusing_world Messages \<noteq> NoFault \<and>
   fault refusing_world User_status = ErrorResult \<and>
   fault refusing_world Profiles = ErrorResult \<and>
   fst (getMessages ''alice'' ''bob'' 50 0 refusing_world) = Inr [] \<and>
   getOnlineUsers ''alice'' refusing_world = (Inr [], refusing_world) \<and>
   getAllUsersExcept ''alice'' refusing_world = (Inr [], refusing_world) \<and>
   fst (sendMessage ''alice'' ''bob'' ''hello'' refusing_world) = Inr None"
proof -
  have f1: "fault rejecting_world Messages \<noteq> NoFault" "fault rejecting_world User_status = Throws"
    "fault rejecting_world Profiles = Throws" "console rejecting_world = []"
    by (simp_all add: rejecting_world_def example_world_def)
  have f2: "fault refusing_world Messages \<noteq> NoFault" "fault refusing_world User_status = ErrorResult"
    "fault refusing_world Profiles = ErrorResult"
    by (simp_all add: refusing_world_def)
  note a = failure_policy [where a = "''alice''" and b = "''bob''" and limit = 50 and offset = 0
      and w = rejecting_world and u = "''alice''" and s = "''alice''" and r = "''bob''"
      and t = "''hello''"]
  note b = failure_policy [where a = "''alice''" and b = "''bob''" and limit = 50 and offset = 0
      and w = refusing_world and u = "''alice''" and s = "''alice''" and r = "''bob''"
      and t = "''hello''"]
  from a f1 have a': "fst (getMessages ''alice'' ''bob'' 50 0 rejecting_world) = Inr []"
    "fst (getConversations ''alice'' rejecting_world) = Inr []"
    "fst (getOnlineUsers ''alice'' rejecting_world) = Inr []"
    "fst (getAllUsersExcept ''alice'' rejecting_world) = Inr []"
    "fst (markMessagesAsRead ''alice'' ''bob'' rejecting_world) = Inr ()"
    "fst (sendMessage ''alice'' ''bob'' ''hello'' rejecting_world) = Inr None"
    "console (snd (sendMessage ''alice'' ''bob'' ''hello'' rejecting_world)) =
       [''Error sending message:'']"
    by simp_all
  from b f2 have b': "fst (getMessages ''alice'' ''bob'' 50 0 refusing_world) = Inr []"
    "getOnlineUsers ''alice'' refusing_world = (Inr [], refusing_world)"
    "getAllUsersExcept ''alice'' refusing_world = (Inr [], refusing_world)"
    "fst (sendMessage ''alice'' ''bob'' ''hello'' refusing_world) = Inr None"
    by simp_all
  show ?thesis
    using f1(1-3) f2 a' b' by blast
qed

subsection \<open>A successful send\<close>

lemma setTimeout_frame [simp]:
  "messages (snd (setTimeout a ms w)) = messages w"
  "profiles (snd (setTimeout a ms w)) = profiles w"
  "fault (snd (setTimeout a ms w)) = fault w"
  "clock (snd (setTimeout a ms w)) = clock w"
  "send_fault (snd (setTimeout a ms w)) = send_fault w"
  "published (snd (setTimeout a ms w)) = published w"
  "console (snd (setTimeout a ms w)) = console w"
  by (simp_all add: setTimeout_def)

lemma announce_eq:
  "announce s r m w =
     (let w1 = open_room (buildPairRoom s r)
                 (snd (setTimeout (UpdateMessageStatus (m_id m) Delivered) 800 w))
      in if send_fault w then (Inl SendRejected, w1)
         else (Inr (Some m), w1\<lparr>published := published w @ [(buildPairRoom s r, m)]\<rparr>))"
  by (simp add: announce_def bind_io_def return_io_def setTimeout_def broadcast_eq Let_def)

lemma announce_frame:
  assumes "announce s r m w = (res, w')"
  shows "messages w' = messages w \<and> profiles w' = profiles w \<and> fault w' = fault w \<and>
         send_fault w' = send_fault w \<and> (send_fault w \<longrightarrow> res = Inl SendRejected) \<and>
         (\<not> send_fault w \<longrightarrow> res = Inr (Some m))"
  using assms by (auto simp: announce_eq Let_def split: if_splits)

lemma presents_message_of_row: "presents (message_of_row ins sp rp) ins"
  by (simp add: presents_def message_of_row_def)

lemma profile_single_frame:
  assumes "profile_single uid w = (res, w')"
  shows "w' = w"
  using assms by (auto simp: profile_single_def split: fault.splits option.splits)

lemma hydrate_and_announce_success:
  assumes "hydrate_and_announce s r ins w = (Inr v, w')"
  shows "(\<exists>m. v = Some m \<and> presents m ins) \<and> messages w' = messages w \<and>
         fault w' = fault w \<and> profiles w' = profiles w"
proof -
  obtain r1 w1 where p1: "profile_single (sender_id ins) w = (r1, w1)" by fastforce
  then have w1: "w1 = w" by (rule profile_single_frame)
  obtain r2 w2 where p2: "profile_single (receiver_id ins) w = (r2, w2)" by fastforce
  then have w2: "w2 = w" by (rule profile_single_frame)
  let ?raw = "message_of_row ins None None"
  show ?thesis
  proof (cases "\<exists>a b. r1 = Inr a \<and> r2 = Inr b")
    case True
    then obtain a b where ab: "r1 = Inr a" "r2 = Inr b" by blast
    let ?m = "message_of_row ins (profile_ref a) (profile_ref b)"
    obtain res3 w3 where a3: "announce s r ?m w = (res3, w3)" by fastforce
    note f3 = announce_frame [OF a3]
    show ?thesis
    proof (cases "send_fault w")
      case False
      with f3 have "res3 = Inr (Some ?m)" by simp
      with assms p1 p2 ab w1 w2 a3 have "v = Some ?m" "w' = w3"
        by (simp_all add: hydrate_and_announce_def try_catch_def bind_io_def)
      with f3 show ?thesis by (auto simp: presents_message_of_row)
    next
      case True
      with f3 have r3: "res3 = Inl SendRejected" by simp
      obtain res4 w4 where a4: "announce s r ?raw w3 = (res4, w4)" by fastforce
      note f4 = announce_frame [OF a4]
      from True f3 f4 have "res4 = Inl SendRejected" by simp
      with assms p1 p2 ab w1 w2 a3 r3 a4 show ?thesis
        by (simp add: hydrate_and_announce_def try_catch_def bind_io_def)
    qed
  next
    case False
    obtain res4 w4 where a4: "announce s r ?raw w = (res4, w4)" by fastforce
    note f4 = announce_frame [OF a4]
    from False have "(\<exists>e. r1 = Inl e) \<or> (\<exists>a e. r1 = Inr a \<and> r2 = Inl e)"
      by (cases r1; cases r2) auto
    with assms p1 p2 w1 w2 a4 have "res4 = Inr v" "w' = w4"
      by (auto simp: hydrate_and_announce_def try_catch_def bind_io_def)
    with f4 show ?thesis
      by (cases "send_fault w") (auto simp: presents_message_of_row)
  qed
qed

lemma sendMessage_success:
  assumes "sendMessage s r t w = (Inr (Some m), w')"
  shows "fault w Messages = NoFault \<and>
         m_id (inserted_row s r t w) \<notin> set (map m_id (messages w)) \<and>
         presents m (inserted_row s r t w) \<and>
         messages w' = messages w @ [inserted_row s r t w] \<and>
         fault w' = fault w \<and> profiles w' = profiles w"
proof -
  have nf: "fault w Messages = NoFault"
  proof (rule ccontr)
    assume "fault w Messages \<noteq> NoFault"
    then have "fst (sendMessage s r t w) = Inr None" using sendMessage_fails by blast
    with assms show False by simp
  qed
  let ?row = "inserted_row s r t w"
  let ?w1 = "w\<lparr>db_uuid_count := Suc (db_uuid_count w)\<rparr>"
  have fresh: "m_id ?row \<notin> set (map m_id (messages w))"
  proof
    assume "m_id ?row \<in> set (map m_id (messages w))"
    with nf have "sendMessage s r t w =
        (Inr None, ?w1\<lparr>console := console ?w1 @ [''Error sending message:'']\<rparr>)"
      by (simp add: sendMessage_def io_defs insert_message_def Let_def)
    with assms show False by simp
  qed
  let ?w2 = "?w1\<lparr>messages := messages w @ [?row]\<rparr>"
  have ins: "insert_message s r t w = (Inr (Response (Some ?row) None), ?w2)"
    using nf fresh by (simp add: insert_message_def Let_def)
  obtain res3 w3 where h: "hydrate_and_announce s r ?row ?w2 = (res3, w3)" by fastforce
  show ?thesis
  proof (cases res3)
    case (Inl e)
    with ins h have "sendMessage s r t w = broadcast_fabricated s r t w3"
      by (simp add: sendMessage_def try_catch_def bind_io_def)
    with assms show ?thesis by (simp add: broadcast_fabricated_eq)
  next
    case (Inr v)
    with ins h have "sendMessage s r t w = (Inr v, w3)"
      by (simp add: sendMessage_def try_catch_def bind_io_def)
    with assms have "v = Some m" "w' = w3" by simp_all
    with hydrate_and_announce_success [of s r ?row ?w2 v w3] h Inr nf fresh
    show ?thesis by auto
  qed
qed

lemma m_id_hydrate: "m_id (hydrate pm r) = m_id r"
  by (simp add: hydrate_def)

lemma count_sort_key: "length (filter P (sort_key f xs)) = length (filter P xs)"
  by (simp add: filter_sort)

lemma between_inserted_row: "between a b (inserted_row a b t w)"
  by (simp add: between_def inserted_row_def)

text \<open>
  C2, as the code has it. When \<open>sendMessage a b text\<close> succeeds and the fetch that
  follows is answered, its window starts at offset 0 and the stored history of the
  pair was shorter than \<open>limit\<close>, then the fetched list holds the sent message exactly
  once, is in ascending order of creation time, and holds every earlier message of
  the pair.
\<close>

theorem sendMessage_then_getMessages:
  assumes sf: "send_then_fetch a b text limit 0 w = Some (m, ms)"
    and pr: "fault w Profiles \<noteq> Throws"
    and fits: "length (pair_history w a b) < limit"
  shows "occurrences m ms = 1 \<and>
         sorted (map created_at ms) \<and>
         length ms = Suc (length (pair_history w a b)) \<and>
         (\<forall>old \<in> set (pair_history w a b). \<exists>x \<in> set ms. presents x old) \<and>
         sender_id m = a \<and> receiver_id m = b \<and> content m = text"
proof -
  from sf obtain w' w'' where
    s1: "sendMessage a b text w = (Inr (Some m), w')" and
    g1: "getMessages a b limit 0 w' = (Inr ms, w'')"
    by (auto simp: send_then_fetch_def split: prod.splits sum.splits option.splits)
  let ?row = "inserted_row a b text w"
  from sendMessage_success [OF s1] have
    nf: "fault w Messages = NoFault" and
    fresh: "m_id ?row \<notin> set (map m_id (messages w))" and
    pres: "presents m ?row" and
    msgs: "messages w' = messages w @ [?row]" and
    fl: "fault w' = fault w"
    by simp_all
  let ?h = "pair_history w a b"
  let ?h' = "pair_history w' a b"
  have h': "?h' = sort_key created_at (filter (between a b) (messages w) @ [?row])"
    by (simp add: pair_history_def msgs between_inserted_row)
  have len': "length ?h' = Suc (length ?h)"
    by (simp add: pair_history_def msgs between_inserted_row)
  from nf pr fl obtain pm where
    "getMessages a b limit 0 w' = (Inr (map (hydrate pm) (take limit (drop 0 ?h'))), w')"
    using getMessages_ok [of w' a b limit 0] by auto
  with g1 fits len' have ms: "ms = map (hydrate pm) ?h'"
    by auto
  have idm: "m_id m = m_id ?row"
    using pres by (simp add: presents_def)
  have "occurrences m ms = length (filter (\<lambda>r. m_id r = m_id ?row) ?h')"
    by (simp add: occurrences_def ms idm filter_map comp_def m_id_hydrate)
  also have "\<dots> =
      length (filter (\<lambda>r. m_id r = m_id ?row) (filter (between a b) (messages w) @ [?row]))"
    by (simp only: h' count_sort_key)
  also have "\<dots> = 1"
  proof -
    have "filter (\<lambda>r. m_id r = m_id ?row) (filter (between a b) (messages w)) = []"
      using fresh by (force simp: filter_empty_conv image_iff)
    then show ?thesis by simp
  qed
  finally have once: "occurrences m ms = 1" .
  have srt: "sorted (map created_at ms)"
    using sorted_pair_history [of w' a b] by (simp add: ms comp_def created_at_hydrate)
  have lenms: "length ms = Suc (length ?h)"
    by (simp add: ms len')
  have "set ?h \<subseteq> set ?h'"
    by (auto simp: set_pair_history msgs)
  then have olds: "\<forall>old \<in> set ?h. \<exists>x \<in> set ms. presents x old"
    by (auto simp: ms intro: presents_hydrate)
  from pres have "sender_id m = a \<and> receiver_id m = b \<and> content m = text"
    by (simp add: presents_def inserted_row_def)
  with once srt lenms olds show ?thesis by blast
qed

text \<open>
  The claim as stated fails once the pair has fifty stored messages: the send
  succeeds, and the default fetch (limit 50, offset 0) returns the fifty oldest
  messages, without the one just sent.
\<close>

theorem sent_message_outside_window:
  "sent_occurrences ''alice'' ''bob'' ''hello'' 50 0 crowded_world = Some 0"
  by code_simp

theorem sendMessage_then_getMessages_witness:
  "sent_occurrences ''alice'' ''bob'' ''hello'' 50 0 example_world = Some 1 \<and>
   fault example_world Profiles \<noteq> Throws \<and>
   length (pair_history example_world ''alice'' ''bob'') < 50"
proof -
  have "sent_occurrences ''alice'' ''bob'' ''hello'' 50 0 example_world \<noteq> None"
    by code_simp
  then obtain m ms where
    sf: "send_then_fetch ''alice'' ''bob'' ''hello'' 50 0 example_world = Some (m, ms)"
    by (auto simp: sent_occurrences_def split: option.splits)
  have pr: "fault example_world Profiles \<noteq> Throws"
    by (simp add: example_world_def)
  have fits: "length (pair_history example_world ''alice'' ''bob'') < 50"
    by (simp add: example_history)
  from sendMessage_then_getMessages [OF sf pr fits] have "occurrences m ms = 1"
    by simp
  with sf have "sent_occurrences ''alice'' ''bob'' ''hello'' 50 0 example_world = Some 1"
    by (simp add: sent_occurrences_def)
  with pr fits show ?thesis by simp
qed

subsection \<open>The filter of the pair channel\<close>

lemma subscribe_opens:
  assumes "map_of (channels w) (buildPairRoom u v) = None"
  shows "map_of (channels (snd (subscribeToPairBroadcast u v cb w))) (buildPairRoom u v) =
           Some (Some (PairHandler u v cb))"
  using assms by (simp add: subscribeToPairBroadcast_def Let_def update_conv')

lemma subscribe_registered:
  assumes "map_of (channels w) (buildPairRoom u v) \<noteq> None"
  shows "subscribeToPairBroadcast u v cb w = (Inr (buildPairRoom u v), w)"
  using assms by (simp add: subscribeToPairBroadcast_def Let_def)

lemma on_broadcast_handler:
  assumes "map_of (channels w) room = Some (Some (PairHandler u v cb))"
  shows "on_broadcast w room msg = (if pair_accepts u v msg then [(cb, msg)] else [])"
  using assms by (simp add: on_broadcast_def)

text \<open>
  C7. On the channel that \<open>subscribeToPairBroadcast userId otherUserId onPairMessage\<close>
  opens (the room was not registered before the call), an arriving payload causes one
  call of \<open>onPairMessage\<close> with it when its sender and receiver are the pair in either
  direction, and no call at all otherwise.
\<close>

theorem pair_broadcast_filter:
  assumes "map_of (channels w) (buildPairRoom userId otherUserId) = None"
  shows "on_broadcast (snd (subscribeToPairBroadcast userId otherUserId onPairMessage w))
           (buildPairRoom userId otherUserId) msg =
         (if (sender_id msg, receiver_id msg) = (userId, otherUserId) \<or>
             (sender_id msg, receiver_id msg) = (otherUserId, userId)
          then [(onPairMessage, msg)] else [])"
  using on_broadcast_handler [OF subscribe_opens [OF assms]]
  by (simp add: pair_accepts_def)

theorem pair_broadcast_filter_witness:
  "map_of (channels example_world) (buildPairRoom ''alice'' ''bob'') = None \<and>
   on_broadcast (snd (subscribeToPairBroadcast ''alice'' ''bob'' 7 example_world))
     (buildPairRoom ''alice'' ''bob'') (temp_message ''x'' ''bob'' ''alice'' ''hi'' 5) =
     [(7, temp_message ''x'' ''bob'' ''alice'' ''hi'' 5)] \<and>
   on_broadcast (snd (subscribeToPairBroadcast ''alice'' ''bob'' 7 example_world))
     (buildPairRoom ''alice'' ''bob'') (temp_message ''y'' ''carol'' ''alice'' ''hi'' 5) = []"
proof -
  have h: "map_of (channels example_world) (buildPairRoom ''alice'' ''bob'') = None"
    by (simp add: example_world_def)
  show ?thesis
    using h pair_broadcast_filter [OF h, of 7 "temp_message ''x'' ''bob'' ''alice'' ''hi'' 5"]
      pair_broadcast_filter [OF h, of 7 "temp_message ''y'' ''carol'' ''alice'' ''hi'' 5"]
    by (simp add: temp_message_def)
qed

subsection \<open>The message made up when the insert throws\<close>

text \<open>
  C10. When the insert of \<open>sendMessage\<close> throws, \<open>sendMessage\<close> returns null and
  stores no row, and (the channel accepting the send) it has published on the pair
  room one message made up on the spot: a fresh random identifier, the given sender,
  receiver and content, status \<open>Sent\<close>, the current time as both timestamps. A peer
  whose client has the pair handler on that room gets its callback called with it.
  When the insert is answered with an error, \<open>sendMessage\<close> returns null and
  publishes nothing.
\<close>

theorem sendMessage_insert_throws_broadcasts:
  "(fault w Messages = Throws \<longrightarrow>
      (\<exists>w'. sendMessage s r t w = (Inr None, w') \<and> messages w' = messages w \<and>
         (\<not> send_fault w \<longrightarrow>
            (\<exists>m. published w' = published w @ [(buildPairRoom s r, m)] \<and>
               m_id m = crypto_uuids w (crypto_uuid_count w) \<and>
               sender_id m = s \<and> receiver_id m = r \<and> content m = t \<and>
               message_type m = Text \<and> status m = Sent \<and>
               created_at m = clock w \<and> updated_at m = clock w \<and>
               (\<forall>peer cb.
                  map_of (channels peer) (buildPairRoom r s) = Some (Some (PairHandler r s cb))
                  \<longrightarrow> on_broadcast peer (buildPairRoom s r) m = [(cb, m)]))))) \<and>
   (fault w Messages = ErrorResult \<longrightarrow>
      (\<exists>w'. sendMessage s r t w = (Inr None, w') \<and> messages w' = messages w \<and>
         published w' = published w))"
proof (intro conjI impI)
  assume th: "fault w Messages = Throws"
  let ?m = "temp_message (crypto_uuids w (crypto_uuid_count w)) s r t (clock w)"
  obtain w' where w': "sendMessage s r t w = (Inr None, w')"
    and eq: "sendMessage s r t w = broadcast_fabricated s r t w"
    using sendMessage_throws [OF th] by (simp add: broadcast_fabricated_eq)
  from w' eq have msgs: "messages w' = messages w"
    by (auto simp: broadcast_fabricated_eq Let_def)
  have pub: "\<not> send_fault w \<longrightarrow> published w' = published w @ [(buildPairRoom s r, ?m)]"
    using w' eq by (auto simp: broadcast_fabricated_eq Let_def)
  have fields: "m_id ?m = crypto_uuids w (crypto_uuid_count w) \<and>
               sender_id ?m = s \<and> receiver_id ?m = r \<and> content ?m = t \<and>
               message_type ?m = Text \<and> status ?m = Sent \<and>
               created_at ?m = clock w \<and> updated_at ?m = clock w"
    by (simp add: temp_message_def)
  have peer: "\<forall>(peer :: world) cb.
      map_of (channels peer) (buildPairRoom r s) = Some (Some (PairHandler r s cb))
      \<longrightarrow> on_broadcast peer (buildPairRoom s r) ?m = [(cb, ?m)]"
  proof (intro allI impI)
    fix peer :: world and cb
    assume "map_of (channels peer) (buildPairRoom r s) = Some (Some (PairHandler r s cb))"
    then have "map_of (channels peer) (buildPairRoom s r) = Some (Some (PairHandler r s cb))"
      by (simp add: pair_room_sym [of s r])
    then show "on_broadcast peer (buildPairRoom s r) ?m = [(cb, ?m)]"
      by (simp add: on_broadcast_handler pair_accepts_def temp_message_def)
  qed
  show "\<exists>w'. sendMessage s r t w = (Inr None, w') \<and> messages w' = messages w \<and>
         (\<not> send_fault w \<longrightarrow>
            (\<exists>m. published w' = published w @ [(buildPairRoom s r, m)] \<and>
               m_id m = crypto_uuids w (crypto_uuid_count w) \<and>
               sender_id m = s \<and> receiver_id m = r \<and> content m = t \<and>
               message_type m = Text \<and> status m = Sent \<and>
               created_at m = clock w \<and> updated_at m = clock w \<and>
               (\<forall>peer cb.
                  map_of (channels peer) (buildPairRoom r s) = Some (Some (PairHandler r s cb))
                  \<longrightarrow> on_broadcast peer (buildPairRoom s r) m = [(cb, m)])))"
    using w' msgs pub fields peer by blast
next
  assume "fault w Messages = ErrorResult"
  then show "\<exists>w'. sendMessage s r t w = (Inr None, w') \<and> messages w' = messages w \<and>
         published w' = published w"
    by (simp add: sendMessage_error_result)
qed

text \<open>The example state with the insert rejected and everything else answered.\<close>

theorem sendMessage_insert_throws_broadcasts_witness:
  "fault (example_world\<lparr>fault := (\<lambda>t. if t = Messages then Throws else NoFault)\<rparr>) Messages
     = Throws \<and>
   \<not> send_fault (example_world\<lparr>fault := (\<lambda>t. if t = Messages then Throws else NoFault)\<rparr>) \<and>
   fst (sendMessage ''alice'' ''bob'' ''hello''
          (example_world\<lparr>fault := (\<lambda>t. if t = Messages then Throws else NoFault)\<rparr>)) = Inr None \<and>
   published (snd (sendMessage ''alice'' ''bob'' ''hello''
          (example_world\<lparr>fault := (\<lambda>t. if t = Messages then Throws else NoFault)\<rparr>))) =
     [(buildPairRoom ''alice'' ''bob'', temp_message ''tmp'' ''alice'' ''bob'' ''hello'' 1000)] \<and>
   fault refusing_world Messages = ErrorResult \<and>
   fst (sendMessage ''alice'' ''bob'' ''hello'' refusing_world) = Inr None \<and>
   published (snd (sendMessage ''alice'' ''bob'' ''hello'' refusing_world)) = []"
proof -
  let ?w = "example_world\<lparr>fault := (\<lambda>t. if t = Messages then Throws else NoFault)\<rparr>"
  have h1: "fault ?w Messages = Throws" by simp
  have h2: "\<not> send_fault ?w" by (simp add: example_world_def)
  have h3: "fault refusing_world Messages = ErrorResult" by (simp add: refusing_world_def)
  have p0: "published ?w = []" "published refusing_world = []"
    "crypto_uuids ?w (crypto_uuid_count ?w) = ''tmp''" "clock ?w = 1000"
    by (simp_all add: example_world_def refusing_world_def)
  from sendMessage_insert_throws_broadcasts [of ?w "''alice''" "''bob''" "''hello''"] h1 h2
  obtain w' m where
    a: "sendMessage ''alice'' ''bob'' ''hello'' ?w = (Inr None, w')"
    and b: "published w' = published ?w @ [(buildPairRoom ''alice'' ''bob'', m)]"
    and c: "sender_id m = ''alice''" "receiver_id m = ''bob''" "content m = ''hello''"
  by blast
  have "published (snd (sendMessage ''alice'' ''bob'' ''hello'' ?w)) =
      [(buildPairRoom ''alice'' ''bob'', temp_message ''tmp'' ''alice'' ''bob'' ''hello'' 1000)]"
    using h1 h2 p0 by (simp add: sendMessage_throws broadcast_fabricated_eq Let_def)
  moreover from sendMessage_insert_throws_broadcasts
      [of refusing_world "''alice''" "''bob''" "''hello''"] h3 p0
  have "fst (sendMessage ''alice'' ''bob'' ''hello'' refusing_world) = Inr None \<and>
      published (snd (sendMessage ''alice'' ''bob'' ''hello'' refusing_world)) = []"
    by auto
  ultimately show ?thesis
    using h1 h2 h3 a by simp
qed

subsection \<open>Marking a conversation read\<close>

lemma no_update_policy: "\<not> has_policy Sql_update"
  by (simp add: has_policy_def messages_policies_def)

lemma update_messages_answered:
  assumes "fault w Messages = NoFault"
  shows "update_messages matches change w = (Inr (Response None None), w)"
proof -
  have "map (\<lambda>m. if has_policy Sql_update \<and> matches m
                   then (change (clock w) m)\<lparr>updated_at := clock w\<rparr> else m) (messages w) =
        messages w"
    by (simp add: no_update_policy)
  with assms show ?thesis
    by (simp add: update_messages_def)
qed

lemma markMessagesAsRead_answered:
  assumes "fault w Messages = NoFault"
  shows "markMessagesAsRead s r w = (Inr (), w)"
  using assms by (simp add: markMessagesAsRead_def io_defs update_messages_answered)

lemma updateMessageStatus_answered:
  assumes "fault w Messages = NoFault"
  shows "updateMessageStatus i st w = (Inr (), w)"
  using assms by (simp add: updateMessageStatus_def io_defs update_messages_answered)

text \<open>
  C8 fails on the code. In the example state Bob has sent Alice two messages that are
  not read (one \<open>Delivered\<close>, one \<open>Sent\<close>) and every request is answered;
  \<open>markMessagesAsRead ''bob'' ''alice''\<close> issues its update, the store has no update
  policy for \<^verbatim>\<open>messages\<close> and shows the update no row, and the call returns with the
  state as it was: both messages keep their status and have no \<open>read_at\<close>, and nothing
  is logged.
\<close>

theorem markMessagesAsRead_updates_nothing:
  "fault example_world Messages = NoFault \<and>
   map (\<lambda>m. (m_id m, status m, read_at m))
     (filter (\<lambda>m. sender_id m = ''bob'' \<and> receiver_id m = ''alice'')
        (messages example_world)) =
     [(''m2'', Delivered, None), (''m4'', Sent, None)] \<and>
   markMessagesAsRead ''bob'' ''alice'' example_world = (Inr (), example_world)"
proof -
  have f: "fault example_world Messages = NoFault"
    by (simp add: example_world_def)
  have rows: "map (\<lambda>m. (m_id m, status m, read_at m))
     (filter (\<lambda>m. sender_id m = ''bob'' \<and> receiver_id m = ''alice'')
        (messages example_world)) =
     [(''m2'', Delivered, None), (''m4'', Sent, None)]"
    by (simp add: example_world_def example_row_def)
  from f rows markMessagesAsRead_answered [OF f, of "''bob''" "''alice''"]
  show ?thesis by simp
qed

subsection \<open>Conversation previews\<close>

lemma conversation_step_keys:
  "fst ` set (conversation_step u m cmap) = insert (otherUserId_of u m) (fst ` set cmap)"
proof (cases "map_of cmap (otherUserId_of u m)")
  case None
  then show ?thesis
    by (auto simp: conversation_step_def Let_def)
next
  case (Some c)
  then have "otherUserId_of u m \<in> fst ` set cmap"
    by (metis map_of_eq_None_iff option.distinct(1))
  with Some show ?thesis
    by (auto simp: conversation_step_def Let_def dom_update)
qed

lemma conversation_step_distinct:
  assumes "distinct (map fst cmap)"
  shows "distinct (map fst (conversation_step u m cmap))"
proof (cases "map_of cmap (otherUserId_of u m)")
  case None
  then have "otherUserId_of u m \<notin> fst ` set cmap"
    by (simp add: map_of_eq_None_iff)
  with None assms show ?thesis
    by (simp add: conversation_step_def Let_def)
next
  case (Some c)
  with assms show ?thesis
    by (simp add: conversation_step_def Let_def distinct_update)
qed

lemma conversation_step_lookup:
  "map_of (conversation_step u m cmap) k =
     (if k = otherUserId_of u m
      then (case map_of cmap k of
              None \<Rightarrow>
                Some \<lparr>user_id = k, name = ''Unknown User'', profile_picture = None,
                      last_message = Some \<lparr>lm_content = content m, lm_created_at = created_at m,
                                            lm_sender_id = sender_id m\<rparr>,
                      unread_count = (if sender_id m \<noteq> u then 1 else 0),
                      is_online = False, last_seen = None\<rparr>
            | Some c \<Rightarrow>
                Some (if sender_id m \<noteq> u then c\<lparr>unread_count := unread_count c + 1\<rparr> else c))
      else map_of cmap k)"
  by (cases "map_of cmap (otherUserId_of u m)")
     (auto simp: conversation_step_def Let_def update_conv' map_add_def split: option.splits)

lemma inbound_from_snoc:
  "inbound_from u k (ms @ [m]) =
     inbound_from u k ms + (if otherUserId_of u m = k \<and> sender_id m \<noteq> u then 1 else 0)"
  by (simp add: inbound_from_def)

lemma conversation_step_counts:
  assumes "\<forall>k c. map_of cmap k = Some c \<longrightarrow>
             user_id c = k \<and> unread_count c = inbound_from u k ms"
    and "fst ` set cmap = otherUserId_of u ` set ms"
  shows "\<forall>k c. map_of (conversation_step u m cmap) k = Some c \<longrightarrow>
             user_id c = k \<and> unread_count c = inbound_from u k (ms @ [m])"
proof (intro allI impI)
  fix k c
  assume look: "map_of (conversation_step u m cmap) k = Some c"
  show "user_id c = k \<and> unread_count c = inbound_from u k (ms @ [m])"
  proof (cases "k = otherUserId_of u m")
    case False
    with look have "map_of cmap k = Some c"
      by (simp add: conversation_step_lookup)
    with assms(1) False show ?thesis
      by (auto simp: inbound_from_snoc)
  next
    case True
    show ?thesis
    proof (cases "map_of cmap k")
      case None
      then have "k \<notin> otherUserId_of u ` set ms"
        using assms(2) by (simp add: map_of_eq_None_iff)
      then have "inbound_from u k ms = 0"
        by (auto simp: inbound_from_def filter_empty_conv)
      with look True None show ?thesis
        by (auto simp: conversation_step_lookup inbound_from_snoc)
    next
      case (Some c0)
      with assms(1) have "user_id c0 = k" "unread_count c0 = inbound_from u k ms"
        by auto
      with look True Some show ?thesis
        by (auto simp: conversation_step_lookup inbound_from_snoc split: if_splits)
    qed
  qed
qed

lemma fold_conversation_step:
  assumes "distinct (map fst cmap)"
    and "fst ` set cmap = otherUserId_of u ` set ms"
    and "\<forall>k c. map_of cmap k = Some c \<longrightarrow>
             user_id c = k \<and> unread_count c = inbound_from u k ms"
  shows "distinct (map fst (fold (conversation_step u) rows cmap)) \<and>
         fst ` set (fold (conversation_step u) rows cmap) = otherUserId_of u ` set (ms @ rows) \<and>
         (\<forall>k c. map_of (fold (conversation_step u) rows cmap) k = Some c \<longrightarrow>
             user_id c = k \<and> unread_count c = inbound_from u k (ms @ rows))"
  using assms
proof (induction rows arbitrary: cmap ms)
  case Nil
  then show ?case by simp
next
  case (Cons m rows)
  have d: "distinct (map fst (conversation_step u m cmap))"
    using Cons.prems(1) by (rule conversation_step_distinct)
  have k: "fst ` set (conversation_step u m cmap) = otherUserId_of u ` set (ms @ [m])"
    using Cons.prems(2) by (simp add: conversation_step_keys)
  have c: "\<forall>k c. map_of (conversation_step u m cmap) k = Some c \<longrightarrow>
             user_id c = k \<and> unread_count c = inbound_from u k (ms @ [m])"
    using Cons.prems(3) Cons.prems(2) by (rule conversation_step_counts)
  from Cons.IH [OF d k c] show ?case by simp
qed

lemma conversationMap_facts:
  "distinct (map fst (fold (conversation_step u) rows [])) \<and>
   fst ` set (fold (conversation_step u) rows []) = otherUserId_of u ` set rows \<and>
   (\<forall>k c. (k, c) \<in> set (fold (conversation_step u) rows []) \<longrightarrow>
       user_id c = k \<and> unread_count c = inbound_from u k rows)"
proof -
  have "distinct (map fst (fold (conversation_step u) rows [])) \<and>
         fst ` set (fold (conversation_step u) rows []) = otherUserId_of u ` set ([] @ rows) \<and>
         (\<forall>k c. map_of (fold (conversation_step u) rows []) k = Some c \<longrightarrow>
             user_id c = k \<and> unread_count c = inbound_from u k ([] @ rows))"
    by (rule fold_conversation_step) simp_all
  then show ?thesis
    by (auto dest: map_of_SomeD simp: map_of_eq_Some_iff)
qed

lemma inbound_from_select_touching:
  "inbound_from u k (select_touching u w) = unread_between w u k"
proof -
  have "inbound_from u k (select_touching u w) =
        length (filter (\<lambda>m. otherUserId_of u m = k \<and> sender_id m \<noteq> u)
                  (filter (touches u) (messages w)))"
    by (simp add: inbound_from_def select_touching_def filter_sort flip: rev_filter)
  also have "\<dots> = length (filter (\<lambda>m. between u k m \<and> sender_id m \<noteq> u) (messages w))"
    by (simp add: otherUserId_of_def touches_def between_def) (metis (mono_tags, lifting) filter_cong)
  finally show ?thesis by (simp add: unread_between_def)
qed


lemma overlay_keeps:
  "fst (overlay pm sm e) = fst e"
  "user_id (snd (overlay pm sm e)) = user_id (snd e)"
  "unread_count (snd (overlay pm sm e)) = unread_count (snd e)"
  "last_message (snd (overlay pm sm e)) = last_message (snd e)"
  by (simp_all add: overlay_def Let_def split: option.splits)

lemma getConversations_result:
  assumes "getConversations u w = (Inr cs, w')"
  shows "cs = [] \<or>
         (\<exists>pm sm. cs = map snd (map (overlay pm sm)
                                 (fold (conversation_step u) (select_touching u w) [])))"
proof (cases "fault w Messages = NoFault")
  case False
  then have "fst (getConversations u w) = Inr []"
    by (cases "fault w Messages")
       (simp_all add: getConversations_throws getConversations_error_result)
  with assms show ?thesis by simp
next
  case nf: True
  let ?cmap = "fold (conversation_step u) (select_touching u w) []"
  show ?thesis
  proof (cases "?cmap = []")
    case True
    with nf assms show ?thesis
      by (simp add: getConversations_def io_defs select_from_def or_empty_def Let_def)
  next
    case False
    then have len: "0 < length (map fst ?cmap)" by simp
    show ?thesis
    proof (cases "fault w Profiles = Throws \<or> fault w User_status = Throws")
      case True
      with nf len assms have "cs = []"
        by (auto simp: getConversations_def io_defs select_from_cases or_empty_def Let_def
            split: if_splits)
      then show ?thesis by simp
    next
      case False
      with nf len assms show ?thesis
        by (auto simp: getConversations_def io_defs select_from_cases or_empty_def Let_def
            split: if_splits)
    qed
  qed
qed

lemma getConversations_previews:
  assumes "getConversations u w = (Inr cs, w')"
  shows "distinct (map user_id cs) \<and>
         (\<forall>c \<in> set cs. unread_count c = unread_between w u (user_id c) \<and>
            user_id c \<in> otherUserId_of u ` set (select_touching u w))"
proof -
  let ?cmap = "fold (conversation_step u) (select_touching u w) []"
  note facts = conversationMap_facts [of u "select_touching u w"]
  from getConversations_result [OF assms] show ?thesis
  proof
    assume "cs = []"
    then show ?thesis by simp
  next
    assume "\<exists>pm sm. cs = map snd (map (overlay pm sm) ?cmap)"
    then obtain pm sm where cs: "cs = map snd (map (overlay pm sm) ?cmap)" by blast
    have ids: "map user_id cs = map fst ?cmap"
    proof -
      have "\<forall>e \<in> set ?cmap. user_id (snd (overlay pm sm e)) = fst e"
        using facts by (auto simp: overlay_keeps)
      then show ?thesis
        by (simp add: cs comp_def)
    qed
    have each: "\<forall>c \<in> set cs. unread_count c = unread_between w u (user_id c) \<and>
            user_id c \<in> otherUserId_of u ` set (select_touching u w)"
    proof
      fix c assume "c \<in> set cs"
      then obtain k c0 where e: "(k, c0) \<in> set ?cmap" and c: "c = snd (overlay pm sm (k, c0))"
        by (auto simp: cs)
      from facts e have "user_id c0 = k" "unread_count c0 = inbound_from u k (select_touching u w)"
        by auto
      moreover from facts e have "k \<in> otherUserId_of u ` set (select_touching u w)"
        by (metis fst_conv image_eqI)
      ultimately show "unread_count c = unread_between w u (user_id c) \<and>
            user_id c \<in> otherUserId_of u ` set (select_touching u w)"
        by (simp add: c overlay_keeps inbound_from_select_touching)
    qed
    from facts ids each show ?thesis by simp
  qed
qed

lemma getConversations_ok:
  assumes "fault w Messages = NoFault" "fault w Profiles \<noteq> Throws"
    "fault w User_status \<noteq> Throws"
  shows "\<exists>pm sm. getConversations u w =
           (Inr (map snd (map (overlay pm sm)
                            (fold (conversation_step u) (select_touching u w) []))), w)"
proof (cases "fold (conversation_step u) (select_touching u w) [] = []")
  case True
  with assms show ?thesis
    by (simp add: getConversations_def io_defs select_from_def or_empty_def Let_def)
next
  case False
  then have "0 < length (map fst (fold (conversation_step u) (select_touching u w) []))"
    by simp
  with assms show ?thesis
    by (auto simp: getConversations_def io_defs select_from_cases or_empty_def Let_def)
qed

lemma peers_select_touching:
  "otherUserId_of u ` set (select_touching u w) =
     otherUserId_of u ` {m \<in> set (messages w). touches u m}"
  by (auto simp: select_touching_def)

text \<open>
  C5. In the result of \<open>getConversations u\<close> there is at most one preview for a peer,
  and the unread count of the preview for peer \<open>p\<close> is the number of stored messages
  between \<open>u\<close> and \<open>p\<close> whose sender is not \<open>u\<close>; their status is not looked at. With
  the requests answered, the peers that have a preview are the other sides of the
  messages \<open>u\<close> sent or received.
\<close>

theorem getConversations_unread_count:
  assumes "getConversations u w = (Inr cs, w')"
  shows "distinct (map user_id cs) \<and>
         (\<forall>c \<in> set cs. unread_count c = unread_between w u (user_id c)) \<and>
         (fault w Messages = NoFault \<and> fault w Profiles \<noteq> Throws \<and>
          fault w User_status \<noteq> Throws \<longrightarrow>
            user_id ` set cs = otherUserId_of u ` {m \<in> set (messages w). touches u m})"
proof -
  note p = getConversations_previews [OF assms]
  have "user_id ` set cs = otherUserId_of u ` {m \<in> set (messages w). touches u m}"
    if ok: "fault w Messages = NoFault \<and> fault w Profiles \<noteq> Throws \<and>
          fault w User_status \<noteq> Throws"
  proof -
    let ?cmap = "fold (conversation_step u) (select_touching u w) []"
    from ok obtain pm sm where
      "getConversations u w = (Inr (map snd (map (overlay pm sm) ?cmap)), w)"
      using getConversations_ok by blast
    with assms have cs: "cs = map snd (map (overlay pm sm) ?cmap)" by auto
    have "\<forall>e \<in> set ?cmap. user_id (snd (overlay pm sm e)) = fst e"
      using conversationMap_facts [of u "select_touching u w"] by (auto simp: overlay_keeps)
    then have "map user_id cs = map fst ?cmap"
      by (simp add: cs comp_def)
    then have "user_id ` set cs = fst ` set ?cmap"
      by (metis set_map)
    then show ?thesis
      using conversationMap_facts [of u "select_touching u w"]
      by (simp add: peers_select_touching)
  qed
  with p show ?thesis by blast
qed

theorem getConversations_unread_count_witness:
  "(\<exists>cs w'. getConversations ''alice'' example_world = (Inr cs, w') \<and>
      distinct (map user_id cs) \<and>
      (\<forall>c \<in> set cs. unread_count c = unread_between example_world ''alice'' (user_id c)) \<and>
      map (\<lambda>c. (user_id c, unread_count c)) cs = [(''bob'', 2), (''carol'', 0)]) \<and>
   unread_between example_world ''alice'' ''bob'' = 2"
proof -
  obtain cs w' where g: "getConversations ''alice'' example_world = (Inr cs, w')"
    using getConversations_total by blast
  have "map (\<lambda>c. (user_id c, unread_count c))
          (projr (fst (getConversations ''alice'' example_world))) =
        [(''bob'', 2), (''carol'', 0)]"
    by code_simp
  with g have l: "map (\<lambda>c. (user_id c, unread_count c)) cs = [(''bob'', 2), (''carol'', 0)]"
    by simp
  have u: "unread_between example_world ''alice'' ''bob'' = 2"
    by (simp add: unread_between_def example_world_def example_row_def between_def)
  from getConversations_unread_count [OF g] have
    d: "distinct (map user_id cs)" and
    e: "\<forall>c \<in> set cs. unread_count c = unread_between example_world ''alice'' (user_id c)"
    by simp_all
  have "\<exists>cs w'. getConversations ''alice'' example_world = (Inr cs, w') \<and>
      distinct (map user_id cs) \<and>
      (\<forall>c \<in> set cs. unread_count c = unread_between example_world ''alice'' (user_id c)) \<and>
      map (\<lambda>c. (user_id c, unread_count c)) cs = [(''bob'', 2), (''carol'', 0)]"
  proof (intro exI conjI)
    show "getConversations ''alice'' example_world = (Inr cs, w')" by (rule g)
    show "distinct (map user_id cs)" by (rule d)
    show "\<forall>c \<in> set cs. unread_count c = unread_between example_world ''alice'' (user_id c)"
      by (rule e)
    show "map (\<lambda>c. (user_id c, unread_count c)) cs = [(''bob'', 2), (''carol'', 0)]"
      by (rule l)
  qed
  with u show ?thesis by simp
qed

subsection \<open>Sorting with a comparator\<close>

lemma set_insort_by: "set (insort_by cmp x xs) = insert x (set xs)"
  by (induction xs) auto

lemma set_sort_by: "set (sort_by cmp xs) = set xs"
  by (induction xs) (simp_all add: sort_by_def set_insort_by)

lemma count_insort_by:
  "length (filter P (insort_by cmp x xs)) = length (filter P (x # xs))"
  by (induction xs) auto

lemma count_sort_by: "length (filter P (sort_by cmp xs)) = length (filter P xs)"
proof (induction xs)
  case Nil
  then show ?case by (simp add: sort_by_def)
next
  case (Cons x xs)
  have "sort_by cmp (x # xs) = insort_by cmp x (sort_by cmp xs)"
    by (simp add: sort_by_def)
  with Cons show ?case
    by (simp add: count_insort_by)
qed

lemma sorted_insort_by:
  assumes total: "\<And>a b. le a b \<or> le b a"
    and trans: "\<And>a b c. le a b \<Longrightarrow> le b c \<Longrightarrow> le a c"
    and le: "\<And>a b. le a b \<longleftrightarrow> cmp a b \<le> 0"
    and srt: "sorted_wrt le xs"
  shows "sorted_wrt le (insort_by cmp x xs)"
  using srt
proof (induction xs)
  case Nil
  then show ?case by simp
next
  case (Cons y ys)
  show ?case
  proof (cases "cmp x y \<le> 0")
    case True
    then have xy: "le x y" by (simp add: le)
    with Cons.prems have "\<forall>z \<in> set ys. le x z"
      using trans by auto
    with True xy Cons.prems show ?thesis by simp
  next
    case False
    then have "le y x" using total [of x y] by (simp add: le)
    with False Cons show ?thesis
      by (auto simp: set_insort_by)
  qed
qed

lemma sorted_sort_by:
  assumes total: "\<And>a b. le a b \<or> le b a"
    and trans: "\<And>a b c. le a b \<Longrightarrow> le b c \<Longrightarrow> le a c"
    and le: "\<And>a b. le a b \<longleftrightarrow> cmp a b \<le> 0"
  shows "sorted_wrt le (sort_by cmp xs)"
proof (induction xs)
  case Nil
  then show ?case by (simp add: sort_by_def)
next
  case (Cons x xs)
  have "sort_by cmp (x # xs) = insort_by cmp x (sort_by cmp xs)"
    by (simp add: sort_by_def)
  with Cons show ?case
    using sorted_insort_by [of le cmp "sort_by cmp xs" x, OF total trans le] by simp
qed

lemma compare_previews_le:
  "compare_previews lc a b \<le> 0 \<longleftrightarrow> preview_before lc a b"
  by (auto simp: compare_previews_def preview_before_def Let_def)

lemma preview_before_total:
  assumes "\<forall>x y. lc x y \<le> 0 \<or> lc y x \<le> 0"
  shows "preview_before lc a b \<or> preview_before lc b a"
  using assms by (auto simp: preview_before_def)

lemma preview_before_trans:
  assumes "\<forall>x y z. lc x y \<le> 0 \<and> lc y z \<le> 0 \<longrightarrow> lc x z \<le> 0"
    and "preview_before lc a b" "preview_before lc b c"
  shows "preview_before lc a c"
proof -
  have t: "lc (name a) (name b) \<le> 0 \<Longrightarrow> lc (name b) (name c) \<le> 0
             \<Longrightarrow> lc (name a) (name c) \<le> 0"
    using assms(1) by blast
  from assms(2,3) t show ?thesis
    unfolding preview_before_def by (elim disjE conjE) auto
qed

lemma sorted_merge_conversations:
  assumes "\<forall>x y. lc x y \<le> 0 \<or> lc y x \<le> 0"
    and "\<forall>x y z. lc x y \<le> 0 \<and> lc y z \<le> 0 \<longrightarrow> lc x z \<le> 0"
  shows "sorted_wrt (preview_before lc) (sort_by (compare_previews lc) xs)"
proof (rule sorted_sort_by)
  show "preview_before lc a b \<or> preview_before lc b a" for a b
    using assms(1) by (rule preview_before_total)
  show "preview_before lc a b \<Longrightarrow> preview_before lc b c \<Longrightarrow> preview_before lc a c" for a b c
    using assms(2) by (rule preview_before_trans)
  show "preview_before lc a b \<longleftrightarrow> compare_previews lc a b \<le> 0" for a b
    by (simp add: compare_previews_le)
qed

subsection \<open>Reads leave the store alone\<close>

lemma only_logsI:
  assumes "\<And>w. \<exists>l. snd (m w) = w\<lparr>console := l\<rparr>"
  shows "only_logs m"
  using assms by (simp add: only_logs_def)

lemma only_logsD:
  assumes "only_logs m"
  obtains l where "snd (m w) = w\<lparr>console := l\<rparr>"
  using assms by (auto simp: only_logs_def)

lemma only_logs_unchanged:
  assumes "\<And>w. snd (m w) = w"
  shows "only_logs m"
proof (rule only_logsI)
  fix w
  have "snd (m w) = w\<lparr>console := console w\<rparr>"
    by (simp add: assms)
  then show "\<exists>l. snd (m w) = w\<lparr>console := l\<rparr>" ..
qed

lemma only_logs_return: "only_logs (return_io v)"
  by (rule only_logs_unchanged) (simp add: return_io_def)

lemma only_logs_console_error: "only_logs (console_error s)"
proof (rule only_logsI)
  fix w
  have "snd (console_error s w) = w\<lparr>console := console w @ [s]\<rparr>"
    by (simp add: console_error_def)
  then show "\<exists>l. snd (console_error s w) = w\<lparr>console := l\<rparr>" ..
qed

lemma only_logs_select_from: "only_logs (select_from t q)"
  by (rule only_logs_unchanged) (simp add: select_from_cases)

lemma only_logs_bind:
  assumes "only_logs m" "\<And>v. only_logs (f v)"
  shows "only_logs (bind_io m f)"
proof (rule only_logsI)
  fix w
  obtain l where l: "snd (m w) = w\<lparr>console := l\<rparr>"
    using assms(1) by (rule only_logsD)
  show "\<exists>l. snd (bind_io m f w) = w\<lparr>console := l\<rparr>"
  proof (cases "m w")
    case (Pair res w1)
    with l have w1: "w1 = w\<lparr>console := l\<rparr>" by simp
    show ?thesis
    proof (cases res)
      case (Inl e)
      with Pair w1 have "snd (bind_io m f w) = w\<lparr>console := l\<rparr>"
        by (simp add: bind_io_def)
      then show ?thesis ..
    next
      case (Inr v)
      obtain l' where "snd (f v w1) = w1\<lparr>console := l'\<rparr>"
        using assms(2) by (rule only_logsD)
      with Pair Inr w1 have "snd (bind_io m f w) = w\<lparr>console := l'\<rparr>"
        by (simp add: bind_io_def)
      then show ?thesis ..
    qed
  qed
qed

lemma only_logs_try_catch:
  assumes "only_logs m" "\<And>e. only_logs (h e)"
  shows "only_logs (try_catch m h)"
proof (rule only_logsI)
  fix w
  obtain l where l: "snd (m w) = w\<lparr>console := l\<rparr>"
    using assms(1) by (rule only_logsD)
  show "\<exists>l. snd (try_catch m h w) = w\<lparr>console := l\<rparr>"
  proof (cases "m w")
    case (Pair res w1)
    with l have w1: "w1 = w\<lparr>console := l\<rparr>" by simp
    show ?thesis
    proof (cases res)
      case (Inr v)
      with Pair w1 have "snd (try_catch m h w) = w\<lparr>console := l\<rparr>"
        by (simp add: try_catch_def)
      then show ?thesis ..
    next
      case (Inl e)
      obtain l' where "snd (h e w1) = w1\<lparr>console := l'\<rparr>"
        using assms(2) by (rule only_logsD)
      with Pair Inl w1 have "snd (try_catch m h w) = w\<lparr>console := l'\<rparr>"
        by (simp add: try_catch_def)
      then show ?thesis ..
    qed
  qed
qed

lemma only_logs_if:
  assumes "only_logs a" "only_logs b"
  shows "only_logs (if c then a else b)"
  using assms by simp

lemmas only_logs_intros =
  only_logs_try_catch only_logs_bind only_logs_if only_logs_return only_logs_console_error
  only_logs_select_from

lemma only_logs_getConversations: "only_logs (getConversations u)"
  unfolding getConversations_def Let_def by (intro only_logs_intros)

lemma only_logs_getAllUsersExcept: "only_logs (getAllUsersExcept u)"
  unfolding getAllUsersExcept_def by (intro only_logs_intros)

lemma only_logs_getOnlineUsers: "only_logs (getOnlineUsers u)"
  unfolding getOnlineUsers_def Let_def by (intro only_logs_intros)

lemma only_logs_frame:
  assumes "only_logs m" "m w = (res, w')"
  shows "messages w' = messages w \<and> profiles w' = profiles w \<and>
         user_status w' = user_status w \<and> fault w' = fault w"
proof -
  obtain l where "snd (m w) = w\<lparr>console := l\<rparr>"
    using assms(1) by (rule only_logsD)
  with assms(2) show ?thesis by simp
qed

subsection \<open>Merging the directory into the previews\<close>

lemma byId_ok_update:
  assumes "byId_ok H byId" "user_id c = k"
    "k \<in> H \<or> (unread_count c = 0 \<and> last_message c = None)"
  shows "byId_ok H (AList.update k c byId)"
  using assms by (auto simp: byId_ok_def distinct_update update_conv')

lemma byId_conversations:
  assumes "byId_ok H byId" "user_id ` set cs \<subseteq> H"
  shows "byId_ok H (fold (\<lambda>c byId. AList.update (user_id c) c byId) cs byId) \<and>
         fst ` set (fold (\<lambda>c byId. AList.update (user_id c) c byId) cs byId) =
           fst ` set byId \<union> user_id ` set cs"
  using assms
proof (induction cs arbitrary: byId)
  case Nil
  then show ?case by simp
next
  case (Cons c cs)
  have "byId_ok H (AList.update (user_id c) c byId)"
    using Cons.prems by (intro byId_ok_update) auto
  moreover have "user_id ` set cs \<subseteq> H"
    using Cons.prems by auto
  ultimately show ?case
    using Cons.IH [of "AList.update (user_id c) c byId"] by (auto simp: dom_update)
qed

lemma directory_step_ok:
  assumes "byId_ok H byId"
  shows "byId_ok H (directory_step om p byId) \<and>
         fst ` set (directory_step om p byId) = insert (p_user_id p) (fst ` set byId)"
proof (cases "map_of byId (p_user_id p)")
  case None
  with assms show ?thesis
    by (auto simp: directory_step_def Let_def dom_update intro!: byId_ok_update)
next
  case (Some c)
  with assms have c: "user_id c = p_user_id p"
    "p_user_id p \<in> H \<or> (unread_count c = 0 \<and> last_message c = None)"
    by (auto simp: byId_ok_def)
  with Some assms show ?thesis
    by (auto simp: directory_step_def Let_def dom_update intro!: byId_ok_update)
qed

lemma byId_directory:
  assumes "byId_ok H byId"
  shows "byId_ok H (fold (directory_step om) ps byId) \<and>
         fst ` set (fold (directory_step om) ps byId) = fst ` set byId \<union> p_user_id ` set ps"
  using assms
proof (induction ps arbitrary: byId)
  case Nil
  then show ?case by simp
next
  case (Cons p ps)
  from directory_step_ok [OF Cons.prems, of om p]
  have ok: "byId_ok H (directory_step om p byId)"
    and keys: "fst ` set (directory_step om p byId) = insert (p_user_id p) (fst ` set byId)"
    by simp_all
  from Cons.IH [OF ok] keys show ?case by auto
qed

lemma count_key:
  assumes "distinct (map fst al)" "k \<in> fst ` set al"
  shows "length (filter (\<lambda>e. fst e = k) al) = 1"
  using assms
proof (induction al)
  case Nil
  then show ?case by simp
next
  case (Cons e al)
  show ?case
  proof (cases "fst e = k")
    case True
    with Cons.prems have "k \<notin> fst ` set al" by auto
    then have "filter (\<lambda>e. fst e = k) al = []"
      by (auto simp: filter_empty_conv)
    with True show ?thesis by simp
  next
    case False
    with Cons show ?thesis by auto
  qed
qed

lemma filter_snd_key:
  assumes "\<forall>e \<in> set al. user_id (snd e) = fst e"
  shows "length (filter (\<lambda>c. user_id c = k) (map snd al)) = length (filter (\<lambda>e. fst e = k) al)"
proof -
  have "filter (\<lambda>e. user_id (snd e) = k) al = filter (\<lambda>e. fst e = k) al"
    by (rule filter_cong) (simp_all add: assms)
  then show ?thesis
    by (simp add: filter_map comp_def)
qed

lemma merge_conversations_facts:
  assumes "user_id ` set cs \<subseteq> H"
  shows "(\<forall>k \<in> p_user_id ` set ps.
            length (filter (\<lambda>c. user_id c = k) (merge_conversations lc cs ps online)) = 1) \<and>
         (\<forall>c \<in> set (merge_conversations lc cs ps online).
            user_id c \<in> H \<or> (unread_count c = 0 \<and> last_message c = None))"
proof -
  define conv where "conv = fold (\<lambda>c byId. AList.update (user_id c) c byId) cs []"
  define byId where "byId = fold (directory_step (onlineMap_of online)) ps conv"
  have m: "merge_conversations lc cs ps online = sort_by (compare_previews lc) (map snd byId)"
    by (simp add: merge_conversations_def Let_def byId_def conv_def)
  have "byId_ok H []" by (simp add: byId_ok_def)
  from byId_conversations [OF this assms] have ok0: "byId_ok H conv"
    unfolding conv_def by (rule conjunct1)
  note dir = byId_directory [OF ok0, of "onlineMap_of online" ps, folded byId_def]
  from dir have ok: "byId_ok H byId"
    by (rule conjunct1)
  from dir have "fst ` set byId = fst ` set conv \<union> p_user_id ` set ps"
    by (rule conjunct2)
  then have keys: "p_user_id ` set ps \<subseteq> fst ` set byId"
    by simp
  have d: "distinct (map fst byId)"
    using ok by (simp add: byId_ok_def)
  have entry: "user_id c = k \<and> (k \<in> H \<or> (unread_count c = 0 \<and> last_message c = None))"
    if "(k, c) \<in> set byId" for k c
  proof -
    from d that have "map_of byId k = Some c"
      by simp
    with ok show ?thesis
      unfolding byId_ok_def by blast
  qed
  have once: "length (filter (\<lambda>c. user_id c = k) (merge_conversations lc cs ps online)) = 1"
    if "k \<in> p_user_id ` set ps" for k
  proof -
    have "length (filter (\<lambda>c. user_id c = k) (map snd byId)) =
          length (filter (\<lambda>e. fst e = k) byId)"
      by (rule filter_snd_key) (auto dest: entry)
    also have "\<dots> = 1"
    proof (rule count_key [OF d])
      show "k \<in> fst ` set byId" using keys that by blast
    qed
    finally show ?thesis
      by (simp only: m count_sort_by)
  qed
  have each: "user_id c \<in> H \<or> (unread_count c = 0 \<and> last_message c = None)"
    if "c \<in> set (merge_conversations lc cs ps online)" for c
  proof -
    from that have "c \<in> snd ` set byId"
      by (simp only: m set_sort_by set_map)
    then obtain k where "(k, c) \<in> set byId"
      by force
    from entry [OF this] show ?thesis by blast
  qed
  show ?thesis
  proof (intro conjI ballI)
    fix k assume "k \<in> p_user_id ` set ps"
    then show "length (filter (\<lambda>c. user_id c = k) (merge_conversations lc cs ps online)) = 1"
      by (rule once)
  next
    fix c assume "c \<in> set (merge_conversations lc cs ps online)"
    then show "user_id c \<in> H \<or> (unread_count c = 0 \<and> last_message c = None)"
      by (rule each)
  qed
qed


lemma initializeChat_steps:
  assumes "initializeChat lc u w = (Inr merged, w')"
  shows "\<exists>cs w1 ps w2 online.
           getConversations u w = (Inr cs, w1) \<and> getAllUsersExcept u w1 = (Inr ps, w2) \<and>
           getOnlineUsers u w2 = (Inr online, w') \<and>
           merged = merge_conversations lc cs ps online"
proof -
  obtain r1 w1 where s1: "getConversations u w = (r1, w1)" by fastforce
  obtain r2 w2 where s2: "getAllUsersExcept u w1 = (r2, w2)" by fastforce
  obtain r3 w3 where s3: "getOnlineUsers u w2 = (r3, w3)" by fastforce
  from assms s1 obtain cs where r1: "r1 = Inr cs"
    by (cases r1) (simp_all add: initializeChat_def bind_io_def)
  from assms s1 r1 s2 obtain ps where r2: "r2 = Inr ps"
    by (cases r2) (simp_all add: initializeChat_def bind_io_def)
  from assms s1 r1 s2 r2 s3 obtain online where r3: "r3 = Inr online"
    by (cases r3) (simp_all add: initializeChat_def bind_io_def)
  from assms s1 r1 s2 r2 s3 r3
  have "merged = merge_conversations lc cs ps online" "w' = w3"
    by (simp_all add: initializeChat_def bind_io_def return_io_def)
  with s1 r1 s2 r2 s3 r3 show ?thesis by blast
qed

lemma getAllUsersExcept_ok:
  assumes "fault w Profiles = NoFault"
  shows "\<exists>ps. getAllUsersExcept u w = (Inr ps, w) \<and>
           p_user_id ` set ps = {p_user_id p |p. p \<in> set (profiles w) \<and> p_user_id p \<noteq> u}"
proof -
  let ?ps = "map (\<lambda>p. \<lparr>p_user_id = p_user_id p, p_name = p_name p,
                         p_profile_picture = p_profile_picture p\<rparr>)
               (select_profiles_except u w)"
  have "getAllUsersExcept u w = (Inr ?ps, w)"
    using assms
    by (simp add: getAllUsersExcept_def io_defs select_from_def or_empty_def)
  moreover have "p_user_id ` set ?ps =
      {p_user_id p |p. p \<in> set (profiles w) \<and> p_user_id p \<noteq> u}"
    by (auto simp: select_profiles_except_def image_iff)
  ultimately show ?thesis by blast
qed

lemma peer_has_history:
  assumes "k \<in> otherUserId_of u ` set (select_touching u w)"
  shows "filter (between u k) (messages w) \<noteq> []"
proof -
  from assms obtain m where m: "m \<in> set (messages w)" "touches u m" "otherUserId_of u m = k"
    by (auto simp: select_touching_def)
  then have "between u k m"
    by (auto simp: between_def touches_def otherUserId_of_def split: if_splits)
  with m(1) show ?thesis
    by (auto simp: filter_empty_conv)
qed

text \<open>
  C4. The list \<open>initializeChat\<close> builds, with a consistent \<open>localeCompare\<close> (a total
  preorder on names): when the directory request is answered, every profile other
  than the current user's has exactly one entry; an entry of a user with no stored
  message between them and the current user has unread count 0 and no last message;
  and the list is in the order \<open>preview_before\<close>: online first, then later last
  message first, then name.
\<close>

theorem initializeChat_directory:
  assumes total: "\<forall>x y. lc x y \<le> 0 \<or> lc y x \<le> 0"
    and trans: "\<forall>x y z. lc x y \<le> 0 \<and> lc y z \<le> 0 \<longrightarrow> lc x z \<le> 0"
    and run: "initializeChat lc u w = (Inr merged, w')"
  shows "(fault w Profiles = NoFault \<longrightarrow>
            (\<forall>p \<in> set (profiles w). p_user_id p \<noteq> u \<longrightarrow>
               length (filter (\<lambda>c. user_id c = p_user_id p) merged) = 1)) \<and>
         (\<forall>c \<in> set merged. filter (between u (user_id c)) (messages w) = [] \<longrightarrow>
            unread_count c = 0 \<and> last_message c = None) \<and>
         sorted_wrt (preview_before lc) merged"
proof -
  from initializeChat_steps [OF run] obtain cs w1 ps w2 online where
    g1: "getConversations u w = (Inr cs, w1)" and
    g2: "getAllUsersExcept u w1 = (Inr ps, w2)" and
    mg: "merged = merge_conversations lc cs ps online"
    by blast
  let ?H = "otherUserId_of u ` set (select_touching u w)"
  have H: "user_id ` set cs \<subseteq> ?H"
    using getConversations_previews [OF g1] by blast
  note facts = merge_conversations_facts [OF H, of ps lc online, folded mg]
  from only_logs_frame [OF only_logs_getConversations g1]
  have same: "profiles w1 = profiles w" "fault w1 = fault w"
    by simp_all
  have part1: "length (filter (\<lambda>c. user_id c = p_user_id p) merged) = 1"
    if nf: "fault w Profiles = NoFault" and p: "p \<in> set (profiles w)" "p_user_id p \<noteq> u" for p
  proof -
    from nf same obtain ps' where
      "getAllUsersExcept u w1 = (Inr ps', w1)"
      "p_user_id ` set ps' = {p_user_id q |q. q \<in> set (profiles w1) \<and> p_user_id q \<noteq> u}"
      using getAllUsersExcept_ok [of w1 u] by auto
    with g2 have "p_user_id ` set ps = {p_user_id q |q. q \<in> set (profiles w1) \<and> p_user_id q \<noteq> u}"
      by simp
    with p same have "p_user_id p \<in> p_user_id ` set ps"
      by auto
    with facts show ?thesis by blast
  qed
  have part2: "unread_count c = 0 \<and> last_message c = None"
    if c: "c \<in> set merged" and none: "filter (between u (user_id c)) (messages w) = []" for c
  proof -
    from facts c have "user_id c \<in> ?H \<or> (unread_count c = 0 \<and> last_message c = None)"
      by blast
    moreover have "user_id c \<notin> ?H"
      using peer_has_history [of "user_id c" u w] none by blast
    ultimately show ?thesis by blast
  qed
  have part3: "sorted_wrt (preview_before lc) merged"
    unfolding mg merge_conversations_def Let_def
    using total trans by (rule sorted_merge_conversations)
  show ?thesis
  proof (intro conjI impI ballI)
    fix p
    assume "fault w Profiles = NoFault" "p \<in> set (profiles w)" "p_user_id p \<noteq> u"
    then show "length (filter (\<lambda>c. user_id c = p_user_id p) merged) = 1"
      by (rule part1)
  next
    fix c
    assume "c \<in> set merged" "filter (between u (user_id c)) (messages w) = []"
    then show "unread_count c = 0" "last_message c = None"
      using part2 by blast+
  next
    show "sorted_wrt (preview_before lc) merged" by (rule part3)
  qed
qed


lemma initializeChat_total: "\<exists>merged w'. initializeChat lc u w = (Inr merged, w')"
proof -
  obtain cs w1 where "getConversations u w = (Inr cs, w1)"
    using getConversations_total by blast
  moreover obtain ps w2 where "getAllUsersExcept u w1 = (Inr ps, w2)"
    using getAllUsersExcept_total by blast
  moreover obtain online w3 where "getOnlineUsers u w2 = (Inr online, w3)"
    using getOnlineUsers_total by blast
  ultimately show ?thesis
    by (simp add: initializeChat_def bind_io_def return_io_def)
qed

lemma default_compare_le: "default_compare x y \<le> 0 \<longleftrightarrow> x \<le> y"
  by (auto simp: default_compare_def)

theorem initializeChat_directory_witness:
  "(\<exists>merged w'. initializeChat default_compare ''alice'' example_world = (Inr merged, w') \<and>
      map user_id merged = [''dave'', ''bob'', ''carol''] \<and>
      map unread_count merged = [0, 2, 0] \<and>
      length (filter (\<lambda>c. user_id c = ''dave'') merged) = 1 \<and>
      sorted_wrt (preview_before default_compare) merged) \<and>
   fault example_world Profiles = NoFault"
proof -
  have total: "\<forall>x y. default_compare x y \<le> 0 \<or> default_compare y x \<le> 0"
    by (auto simp: default_compare_le)
  have trans: "\<forall>x y z. default_compare x y \<le> 0 \<and> default_compare y z \<le> 0
                 \<longrightarrow> default_compare x z \<le> 0"
    by (auto simp: default_compare_le)
  obtain merged w' where
    run: "initializeChat default_compare ''alice'' example_world = (Inr merged, w')"
    using initializeChat_total by blast
  have "map (\<lambda>c. (user_id c, unread_count c))
          (projr (fst (initializeChat default_compare ''alice'' example_world))) =
        [(''dave'', 0), (''bob'', 2), (''carol'', 0)]"
    by code_simp
  with run have l: "map (\<lambda>c. (user_id c, unread_count c)) merged =
        [(''dave'', 0), (''bob'', 2), (''carol'', 0)]"
    by simp
  have ids: "map user_id merged = [''dave'', ''bob'', ''carol'']"
    using arg_cong [OF l, of "map fst"] by (simp add: comp_def)
  have cnt: "map unread_count merged = [0, 2, 0]"
    using arg_cong [OF l, of "map snd"] by (simp add: comp_def)
  have nf: "fault example_world Profiles = NoFault"
    by (simp add: example_world_def)
  have dave: "\<lparr>p_user_id = ''dave'', p_name = ''Dave'', p_profile_picture = None\<rparr>
          \<in> set (profiles example_world)"
    by (simp add: example_world_def)
  note main = initializeChat_directory [OF total trans run]
  from main nf dave have one: "length (filter (\<lambda>c. user_id c = ''dave'') merged) = 1"
    by force
  from main have srt: "sorted_wrt (preview_before default_compare) merged"
    by simp
  have "\<exists>merged w'. initializeChat default_compare ''alice'' example_world = (Inr merged, w') \<and>
      map user_id merged = [''dave'', ''bob'', ''carol''] \<and>
      map unread_count merged = [0, 2, 0] \<and>
      length (filter (\<lambda>c. user_id c = ''dave'') merged) = 1 \<and>
      sorted_wrt (preview_before default_compare) merged"
  proof (intro exI conjI)
    show "initializeChat default_compare ''alice'' example_world = (Inr merged, w')"
      by (rule run)
    show "map user_id merged = [''dave'', ''bob'', ''carol'']" by (rule ids)
    show "map unread_count merged = [0, 2, 0]" by (rule cnt)
    show "length (filter (\<lambda>c. user_id c = ''dave'') merged) = 1" by (rule one)
    show "sorted_wrt (preview_before default_compare) merged" by (rule srt)
  qed
  with nf show ?thesis by simp
qed

subsection \<open>The typing indicator\<close>

lemma sendTypingIndicator_unbound:
  assumes "global_is_typing w = None"
    and "map_of (typingTimeouts w) (userId @ ''-'' @ targetUserId) = None"
  shows "sendTypingIndicator userId targetUserId isTyping w =
           (Inr (), w\<lparr>console := console w @ [''Error sending typing indicator:'']\<rparr>)"
  using assms
  by (simp add: sendTypingIndicator_def io_defs read_is_typing_def Let_def)

text \<open>
  C9 fails on the code. In the example state (no timer pending, the identifier
  \<^verbatim>\<open>is_typing\<close> undeclared, every request answered),
  \<open>sendTypingIndicator ''alice'' ''bob'' True\<close> ends in its \<^verbatim>\<open>catch\<close>: it logs the
  error, writes no row to \<^verbatim>\<open>typing_indicators\<close> and schedules no timeout, so three
  seconds later nothing has been written either.
\<close>

theorem sendTypingIndicator_writes_nothing:
  "global_is_typing example_world = None \<and>
   fault example_world Typing_indicators = NoFault \<and>
   sendTypingIndicator ''alice'' ''bob'' True example_world =
     (Inr (), example_world\<lparr>console := [''Error sending typing indicator:'']\<rparr>) \<and>
   typing_indicators (snd (sendTypingIndicator ''alice'' ''bob'' True example_world)) = [] \<and>
   timers (snd (sendTypingIndicator ''alice'' ''bob'' True example_world)) = [] \<and>
   typing_indicators
     (advance 3000 (snd (sendTypingIndicator ''alice'' ''bob'' True example_world))) = []"
proof -
  have g: "global_is_typing example_world = None"
    and f: "fault example_world Typing_indicators = NoFault"
    and k: "map_of (typingTimeouts example_world) (''alice'' @ ''-'' @ ''bob'') = None"
    and c: "console example_world = []"
    and e: "typing_indicators example_world = []" "timers example_world = []"
    by (simp_all add: example_world_def)
  have s: "sendTypingIndicator ''alice'' ''bob'' True example_world =
     (Inr (), example_world\<lparr>console := [''Error sending typing indicator:'']\<rparr>)"
    using sendTypingIndicator_unbound [OF g k, of True] c by simp
  have a: "typing_indicators
     (advance 3000 (example_world\<lparr>console := [''Error sending typing indicator:'']\<rparr>)) = []"
    using e by (simp add: advance_def Let_def)
  from g f s a e show ?thesis by simp
qed

text \<open>
  Were \<^verbatim>\<open>is_typing\<close> bound in the global scope, the row written would carry that
  binding, whatever \<open>isTyping\<close> the caller passed.
\<close>

lemma sendTypingIndicator_writes_global:
  assumes "global_is_typing w = Some b"
    and "map_of (typingTimeouts w) (userId @ ''-'' @ targetUserId) = None"
    and "fault w Typing_indicators = NoFault"
  shows "typing_indicators (snd (sendTypingIndicator userId targetUserId False w)) =
           typing_indicators w @
             [\<lparr>t_user_id = userId, t_target_user_id = targetUserId, t_is_typing = b\<rparr>]"
  using assms
  by (simp add: sendTypingIndicator_def io_defs read_is_typing_def upsert_typing_def Let_def)

end
